theory Spec2Isabelle
  imports Complex_Main "HOL-Library.AList" "HOL-Library.Sublist" "HOL-Library.Char_ord"
    "HOL-Library.List_Lexorder"
begin

chapter \<open>webAccessConnector-1.1.js\<close>

text \<open>
  A shallow embedding of \<^verbatim>\<open>src/webAccessConnector-1.1.js\<close>: the query response
  processor, the save-data preparation of the record and action commands, the attribute
  traversal of the metadata commands, the static \<^verbatim>\<open>parseQueryUrl\<close> and the
  \<^verbatim>\<open>webAccessRequest\<close> orchestrator.
\<close>

section \<open>JavaScript values and built-ins used by the library\<close>

text \<open>
  A JavaScript string is a \<^typ>\<open>string\<close>, read as the UTF-8 bytes of its text. A
  JavaScript number is a \<open>jsnum\<close>: the exact rational value of a numeric literal, or one
  of the three special values (the rounding of IEEE doubles is not part of the model, and
  \<open>-0\<close> is \<open>0\<close>). \<open>undefined\<close> is \<open>None\<close> of an option type wherever the code can
  meet it.
\<close>

datatype jsnum = NaN | PosInfinity | NegInfinity | Finite rat

datatype strnum = Str string | Num jsnum

text \<open>Truthiness of a string or number, and of a possibly undefined one.\<close>

fun truthy :: "strnum \<Rightarrow> bool" where
  "truthy (Str s) = (s \<noteq> [])"
| "truthy (Num NaN) = False"
| "truthy (Num (Finite q)) = (q \<noteq> 0)"
| "truthy (Num PosInfinity) = True"
| "truthy (Num NegInfinity) = True"

fun truthyOpt :: "strnum option \<Rightarrow> bool" where
  "truthyOpt None = False"
| "truthyOpt (Some v) = truthy v"

subsection \<open>String methods\<close>

text \<open>\<^verbatim>\<open>xs[i]\<close>: \<open>undefined\<close> out of range.\<close>

definition itemAt :: "'a list \<Rightarrow> nat \<Rightarrow> 'a option" where
  "itemAt xs i = (if i < length xs then Some (xs ! i) else None)"

text \<open>\<^verbatim>\<open>s.split(c)\<close> for a one-character separator: never the empty array.\<close>

fun split :: "char \<Rightarrow> string \<Rightarrow> string list" where
  "split sep [] = [[]]"
| "split sep (c # cs) =
     (if c = sep then [] # split sep cs
      else (case split sep cs of [] \<Rightarrow> [[c]] | p # ps \<Rightarrow> (c # p) # ps))"

text \<open>\<^verbatim>\<open>xs.join(c)\<close>.\<close>

fun join :: "char \<Rightarrow> string list \<Rightarrow> string" where
  "join sep [] = []"
| "join sep [p] = p"
| "join sep (p # q # ps) = p @ sep # join sep (q # ps)"

text \<open>\<^verbatim>\<open>s.indexOf(c, from)\<close>: the first position at or after \<open>from\<close>, or \<open>-1\<close>.\<close>

fun indexOfFrom :: "char \<Rightarrow> nat \<Rightarrow> string \<Rightarrow> nat \<Rightarrow> int" where
  "indexOfFrom c from [] k = -1"
| "indexOfFrom c from (x # xs) k =
     (if from \<le> k \<and> x = c then int k else indexOfFrom c from xs (Suc k))"

definition indexOf :: "string \<Rightarrow> char \<Rightarrow> nat \<Rightarrow> int" where
  "indexOf s c from = indexOfFrom c from s 0"

text \<open>
  \<^verbatim>\<open>s.substring(start, end)\<close>: both arguments are clamped to \<open>0 .. length\<close> and
  swapped when \<open>start > end\<close>; \<^verbatim>\<open>s.substring(start)\<close> runs to the end.
\<close>

definition clamp :: "string \<Rightarrow> int \<Rightarrow> nat" where
  "clamp s i = (if i < 0 then 0 else min (nat i) (length s))"

definition substring :: "string \<Rightarrow> int \<Rightarrow> int \<Rightarrow> string" where
  "substring s start end =
     (let a = clamp s start; b = clamp s end
      in take (max a b - min a b) (drop (min a b) s))"

definition substringFrom :: "string \<Rightarrow> int \<Rightarrow> string" where
  "substringFrom s start = drop (clamp s start) s"

text \<open>\<^verbatim>\<open>s.toLowerCase()\<close> on the ASCII letters (other bytes are kept).\<close>

definition lowerChar :: "char \<Rightarrow> char" where
  "lowerChar c =
     (let n = (of_char c :: nat) in if 65 \<le> n \<and> n \<le> 90 then char_of (n + 32) else c)"

definition toLowerCase :: "string \<Rightarrow> string" where
  "toLowerCase s = map lowerChar s"

subsection \<open>White space\<close>

text \<open>
  The white space and line terminators that \<^verbatim>\<open>Number\<close> and \<^verbatim>\<open>parseFloat\<close>
  strip: TAB, LF, VT, FF, CR, SP, and in UTF-8 U+00A0, U+1680, U+2000..U+200A, U+2028,
  U+2029, U+202F, U+205F, U+3000 and U+FEFF.
\<close>

definition whiteSpace :: "nat list list" where
  "whiteSpace =
     [[0x09], [0x0A], [0x0B], [0x0C], [0x0D], [0x20], [0xC2, 0xA0], [0xE1, 0x9A, 0x80],
      [0xE2, 0x80, 0x80], [0xE2, 0x80, 0x81], [0xE2, 0x80, 0x82], [0xE2, 0x80, 0x83],
      [0xE2, 0x80, 0x84], [0xE2, 0x80, 0x85], [0xE2, 0x80, 0x86], [0xE2, 0x80, 0x87],
      [0xE2, 0x80, 0x88], [0xE2, 0x80, 0x89], [0xE2, 0x80, 0x8A], [0xE2, 0x80, 0xA8],
      [0xE2, 0x80, 0xA9], [0xE2, 0x80, 0xAF], [0xE2, 0x81, 0x9F], [0xE3, 0x80, 0x80],
      [0xEF, 0xBB, 0xBF]]"

text \<open>The length of the white space character a byte list starts with (\<open>0\<close>: none).\<close>

definition whiteSpaceAt :: "nat list list \<Rightarrow> string \<Rightarrow> nat" where
  "whiteSpaceAt ws s =
     (case find (\<lambda>w. prefix w (map of_char s)) ws of None \<Rightarrow> 0 | Some w \<Rightarrow> length w)"

fun dropWhiteSpace :: "nat list list \<Rightarrow> string \<Rightarrow> string" where
  "dropWhiteSpace ws [] = []"
| "dropWhiteSpace ws (c # cs) =
     (case whiteSpaceAt ws (c # cs) of
        0 \<Rightarrow> c # cs
      | Suc n \<Rightarrow> dropWhiteSpace ws (drop n cs))"

definition trimStart :: "string \<Rightarrow> string" where
  "trimStart s = dropWhiteSpace whiteSpace s"

definition trim :: "string \<Rightarrow> string" where
  "trim s = rev (dropWhiteSpace (map rev whiteSpace) (rev (trimStart s)))"

subsection \<open>Numeric literals: \<^verbatim>\<open>Number\<close>, \<^verbatim>\<open>isNaN\<close> and \<^verbatim>\<open>parseFloat\<close>\<close>

definition digitValue :: "nat \<Rightarrow> char \<Rightarrow> nat option" where
  "digitValue base c =
     (let n = (of_char c :: nat);
          d = (if 48 \<le> n \<and> n \<le> 57 then Some (n - 48)
               else if 97 \<le> n \<and> n \<le> 102 then Some (n - 87)
               else if 65 \<le> n \<and> n \<le> 70 then Some (n - 55)
               else None)
      in case d of None \<Rightarrow> None | Some v \<Rightarrow> if v < base then Some v else None)"

definition isDigit :: "nat \<Rightarrow> char \<Rightarrow> bool" where
  "isDigit base c = (digitValue base c \<noteq> None)"

definition digitsValue :: "nat \<Rightarrow> string \<Rightarrow> nat" where
  "digitsValue base ds =
     foldl (\<lambda>a c. base * a + (case digitValue base c of None \<Rightarrow> 0 | Some v \<Rightarrow> v)) 0 ds"

text \<open>\<open>10\<close> to the power of a signed exponent.\<close>

definition scale :: "rat \<Rightarrow> bool \<Rightarrow> nat \<Rightarrow> rat" where
  "scale q negative e = (if negative then q / 10 ^ e else q * 10 ^ e)"

text \<open>An optional sign: whether it is \<open>-\<close>, and the rest.\<close>

fun sign :: "string \<Rightarrow> bool \<times> string" where
  "sign [] = (False, [])"
| "sign (c # cs) =
     (if c = CHR ''-'' then (True, cs) else if c = CHR ''+'' then (False, cs)
      else (False, c # cs))"

text \<open>
  An exponent part at the head of a string: \<open>e\<close> or \<open>E\<close>, an optional sign and at least
  one digit. Without the digits there is no exponent part and nothing is consumed.
\<close>

definition exponentPart :: "string \<Rightarrow> (bool \<times> nat) \<times> string" where
  "exponentPart s =
     (case s of
        [] \<Rightarrow> ((False, 0), s)
      | c # cs \<Rightarrow>
          if c = CHR ''e'' \<or> c = CHR ''E'' then
            (let (negative, r) = sign cs; ds = takeWhile (isDigit 10) r
             in if ds = [] then ((False, 0), s)
                else ((negative, digitsValue 10 ds), dropWhile (isDigit 10) r))
          else ((False, 0), s))"

text \<open>
  The longest prefix of a string that is a \<open>StrDecimalLiteral\<close> (an optional sign, then
  \<open>Infinity\<close>, or digits with an optional fraction and exponent), with its value and the
  rest of the string; \<open>None\<close> when no prefix is one.
\<close>

definition strDecimalLiteral :: "string \<Rightarrow> (jsnum \<times> string) option" where
  "strDecimalLiteral s =
     (let (negative, s1) = sign s in
      if prefix ''Infinity'' s1 then
        Some (if negative then NegInfinity else PosInfinity, drop 8 s1)
      else
        (let ip = takeWhile (isDigit 10) s1; s2 = dropWhile (isDigit 10) s1;
             dot = (case s2 of [] \<Rightarrow> False | c # r \<Rightarrow> c = CHR ''.'');
             fp = (if dot then takeWhile (isDigit 10) (tl s2) else []);
             s3 = (if dot \<and> (ip \<noteq> [] \<or> fp \<noteq> []) then dropWhile (isDigit 10) (tl s2)
                   else s2)
         in if ip = [] \<and> fp = [] then None
            else
              (let ((eneg, e), s4) = exponentPart s3;
                   m = of_nat (digitsValue 10 ip) + of_nat (digitsValue 10 fp) / 10 ^ length fp;
                   v = scale m eneg e
               in Some (Finite (if negative then - v else v), s4))))"

text \<open>A hexadecimal, octal or binary integer literal (\<open>0x..\<close>, \<open>0o..\<close>, \<open>0b..\<close>).\<close>

definition nonDecimalLiteral :: "string \<Rightarrow> jsnum option" where
  "nonDecimalLiteral s =
     (case s of
        z # x # ds \<Rightarrow>
          (let base = (if x = CHR ''x'' \<or> x = CHR ''X'' then 16
                       else if x = CHR ''o'' \<or> x = CHR ''O'' then 8
                       else if x = CHR ''b'' \<or> x = CHR ''B'' then 2 else 0)
           in if z = CHR ''0'' \<and> base \<noteq> 0 \<and> ds \<noteq> [] \<and> list_all (isDigit base) ds
              then Some (Finite (of_nat (digitsValue base ds))) else None)
      | _ \<Rightarrow> None)"

text \<open>\<^verbatim>\<open>Number(s)\<close> for a string: trimmed, empty is \<open>0\<close>, else one whole literal.\<close>

definition StringToNumber :: "string \<Rightarrow> jsnum" where
  "StringToNumber s =
     (let t = trim s in
      if t = [] then Finite 0
      else (case nonDecimalLiteral t of
              Some v \<Rightarrow> v
            | None \<Rightarrow> (case strDecimalLiteral t of Some (v, []) \<Rightarrow> v | _ \<Rightarrow> NaN)))"

fun ToNumber :: "strnum \<Rightarrow> jsnum" where
  "ToNumber (Num n) = n"
| "ToNumber (Str s) = StringToNumber s"

text \<open>\<^verbatim>\<open>isNaN(x)\<close> for a string or \<open>undefined\<close> (\<open>Number(undefined)\<close> is \<open>NaN\<close>).\<close>

definition isNaN :: "string option \<Rightarrow> bool" where
  "isNaN x = (case x of None \<Rightarrow> True | Some s \<Rightarrow> StringToNumber s = NaN)"

text \<open>\<^verbatim>\<open>String(x)\<close> for a string or \<open>undefined\<close>.\<close>

definition ToString :: "string option \<Rightarrow> string" where
  "ToString x = (case x of None \<Rightarrow> ''undefined'' | Some s \<Rightarrow> s)"

text \<open>\<^verbatim>\<open>parseFloat(x)\<close>: the decimal literal at the head of the string, after white space.\<close>

definition parseFloat :: "string option \<Rightarrow> jsnum" where
  "parseFloat x =
     (case strDecimalLiteral (trimStart (ToString x)) of None \<Rightarrow> NaN | Some (v, r) \<Rightarrow> v)"

text \<open>\<^verbatim>\<open>x == n\<close> for a string or number \<open>x\<close> and a number \<open>n\<close>.\<close>

definition looseEquals :: "strnum \<Rightarrow> rat \<Rightarrow> bool" where
  "looseEquals x n = (ToNumber x = Finite n)"

text \<open>\<^verbatim>\<open>String(i)\<close> for a natural number: its decimal digits.\<close>

fun numberToString :: "nat \<Rightarrow> string" where
  "numberToString n =
     (if n < 10 then [char_of (48 + n)]
      else numberToString (n div 10) @ [char_of (48 + n mod 10)])"

declare numberToString.simps [simp del]

subsection \<open>\<^verbatim>\<open>decodeURIComponent\<close>\<close>

text \<open>The exceptions the modelled code can throw.\<close>

datatype exception = URIError | TypeError | SyntaxError

text \<open>
  The first pass reads the escapes: a \<open>%\<close> must be followed by two hexadecimal digits.
  Other characters stand for themselves.
\<close>

fun unescape :: "string \<Rightarrow> (char + nat) list option" where
  "unescape [] = Some []"
| "unescape (c # cs) =
     (if c = CHR ''%'' then
        (case cs of
           a # b # rest \<Rightarrow>
             (case (digitValue 16 a, digitValue 16 b) of
                (Some x, Some y) \<Rightarrow> map_option (Cons (Inr (16 * x + y))) (unescape rest)
              | _ \<Rightarrow> None)
         | _ \<Rightarrow> None)
      else map_option (Cons (Inl c)) (unescape cs))"

text \<open>
  The second pass groups the escaped octets: an octet below \<open>0x80\<close> is a character, any
  other must start a well-formed UTF-8 sequence whose remaining octets are escaped too.
\<close>

definition sequenceLength :: "nat \<Rightarrow> nat" where
  "sequenceLength b =
     (if b < 0x80 then 1 else if 0xC2 \<le> b \<and> b \<le> 0xDF then 2
      else if 0xE0 \<le> b \<and> b \<le> 0xEF then 3 else if 0xF0 \<le> b \<and> b \<le> 0xF4 then 4 else 0)"

definition continuation :: "nat \<Rightarrow> bool" where
  "continuation b = (0x80 \<le> b \<and> b \<le> 0xBF)"

definition wellFormed :: "nat list \<Rightarrow> bool" where
  "wellFormed bs =
     (case bs of
        [a] \<Rightarrow> a < 0x80
      | [a, b] \<Rightarrow> 0xC2 \<le> a \<and> a \<le> 0xDF \<and> continuation b
      | [a, b, c] \<Rightarrow>
          (a = 0xE0 \<and> 0xA0 \<le> b \<and> b \<le> 0xBF \<or>
           (0xE1 \<le> a \<and> a \<le> 0xEC \<or> a = 0xEE \<or> a = 0xEF) \<and> continuation b \<or>
           a = 0xED \<and> 0x80 \<le> b \<and> b \<le> 0x9F) \<and> continuation c
      | [a, b, c, d] \<Rightarrow>
          (a = 0xF0 \<and> 0x90 \<le> b \<and> b \<le> 0xBF \<or>
           0xF1 \<le> a \<and> a \<le> 0xF3 \<and> continuation b \<or>
           a = 0xF4 \<and> 0x80 \<le> b \<and> b \<le> 0x8F) \<and> continuation c \<and> continuation d
      | _ \<Rightarrow> False)"

fun escaped :: "char + nat \<Rightarrow> nat option" where
  "escaped (Inl c) = None"
| "escaped (Inr b) = Some b"

fun decodeOctets :: "(char + nat) list \<Rightarrow> string option" where
  "decodeOctets [] = Some []"
| "decodeOctets (Inl c # ts) = map_option (Cons c) (decodeOctets ts)"
| "decodeOctets (Inr b # ts) =
     (let n = sequenceLength b; more = List.map_filter escaped (take (n - 1) ts)
      in if n = 0 \<or> length more < n - 1 \<or> \<not> wellFormed (b # more) then None
         else map_option (append (map char_of (b # more))) (decodeOctets (drop (n - 1) ts)))"

text \<open>\<^verbatim>\<open>decodeURIComponent(x)\<close> for a string or \<open>undefined\<close>; \<open>None\<close> is the URIError.\<close>

definition decodeURIComponent :: "string option \<Rightarrow> string option" where
  "decodeURIComponent x =
     (case unescape (ToString x) of None \<Rightarrow> None | Some ts \<Rightarrow> decodeOctets ts)"

section \<open>\<^verbatim>\<open>webAccessConnector.parseQueryUrl\<close>\<close>

text \<open>
  An object whose properties are strings or numbers is an association list in the order
  the properties were created; \<^verbatim>\<open>obj[k] = v\<close> is \<open>AList.update k v obj\<close> and
  \<^verbatim>\<open>obj[k]\<close> is \<open>map_of obj k\<close>.
\<close>

type_synonym object = "(string \<times> strnum) list"

record returnObject =
  webAccessUrl :: "string option"
  queryData :: object

text \<open>
  The loop \<^verbatim>\<open>for (var i in pairs)\<close>: each pair is split at every \<open>=\<close>; the
  name is the decoded first piece, the value comes from the second piece alone.
\<close>

fun parsePairs :: "string list \<Rightarrow> object \<Rightarrow> exception + object" where
  "parsePairs [] obj = Inr obj"
| "parsePairs (p # ps) obj =
     (let pair = split CHR ''='' p in
      case decodeURIComponent (itemAt pair 0) of
        None \<Rightarrow> Inl URIError
      | Some name \<Rightarrow>
          if isNaN (itemAt pair 1) then
            (case decodeURIComponent (itemAt pair 1) of
               None \<Rightarrow> Inl URIError
             | Some s \<Rightarrow> parsePairs ps (AList.update name (Str s) obj))
          else parsePairs ps (AList.update name (Num (parseFloat (itemAt pair 1))) obj))"

text \<open>\<^verbatim>\<open>if (obj.k) { queryData.k = obj.k; }\<close>\<close>

definition copyIfTruthy :: "string \<Rightarrow> object \<Rightarrow> object \<Rightarrow> object" where
  "copyIfTruthy k obj qd =
     (case map_of obj k of
        None \<Rightarrow> qd
      | Some v \<Rightarrow> if truthy v then AList.update k v qd else qd)"

text \<open>The loop over \<open>c0\<close>, \<open>c1\<close>, ... that stops at the first missing or falsy one.\<close>

function copyCriteria ::
  "(string \<times> strnum) list \<Rightarrow> nat \<Rightarrow> (string \<times> strnum) list \<Rightarrow> (string \<times> strnum) list" where
  "copyCriteria obj i qd =
     (let cn = ''c'' @ numberToString i in
      case map_of obj cn of
        None \<Rightarrow> qd
      | Some v \<Rightarrow>
          if truthy v then copyCriteria obj (Suc i) (AList.update cn v qd)
          else qd)"
  by pat_completeness auto
termination
proof -
  have ne: "numberToString n \<noteq> []" for n
    by (subst numberToString.simps) simp
  have len: "length (numberToString n) = 1 \<longleftrightarrow> n < 10" for n
    by (subst numberToString.simps) (auto simp: ne)
  have dig: "char_of (48 + a :: nat) = (char_of (48 + b) :: char) \<longleftrightarrow> a = b"
    if "a < 10" "b < 10" for a b :: nat
    using that by (simp add: char_of_eq_iff take_bit_eq_mod)
  have inj: "numberToString n = numberToString m \<Longrightarrow> n = m" for n m
  proof (induction n arbitrary: m rule: numberToString.induct)
    case (1 n)
    show ?case
    proof (cases "n < 10")
      case True
      with "1.prems" have "length (numberToString m) = 1"
        by (metis len)
      then have m: "m < 10" using len [of m] by blast
      from True m "1.prems" show ?thesis
        by (subst (asm) numberToString.simps, subst (asm) (2) numberToString.simps)
           (simp add: dig)
    next
      case False
      with "1.prems" have "length (numberToString m) \<noteq> 1"
        by (metis len)
      then have m: "\<not> m < 10" using len [of m] by blast
      from False m "1.prems"
      have eq: "numberToString (n div 10) @ [char_of (48 + n mod 10)] =
                numberToString (m div 10) @ [char_of (48 + m mod 10)]"
        by (subst (asm) numberToString.simps, subst (asm) (2) numberToString.simps)
           simp
      then have "numberToString (n div 10) = numberToString (m div 10)"
        and "(char_of (48 + n mod 10) :: char) = char_of (48 + m mod 10)"
        by simp_all
      with "1.IH" [OF False] have "n div 10 = m div 10" "n mod 10 = m mod 10"
        by (simp_all add: dig)
      then show ?thesis
        by (metis div_mult_mod_eq)
    qed
  qed
  define keys where "keys obj i = {j. i \<le> j \<and> ''c'' @ numberToString j \<in> fst ` set obj}"
    for obj :: "(string \<times> strnum) list" and i :: nat
  have fin: "finite (keys obj i)" for obj i
  proof -
    have "keys obj i \<subseteq> (\<lambda>j. ''c'' @ numberToString j) -` (fst ` set obj)"
      by (auto simp: keys_def)
    moreover have "finite ((\<lambda>j. ''c'' @ numberToString j) -` (fst ` set obj))"
    proof (rule finite_vimageI)
      show "finite (fst ` set obj)" by simp
      show "inj (\<lambda>j. ''c'' @ numberToString j)"
      proof (rule injI)
        fix x y assume "''c'' @ numberToString x = ''c'' @ numberToString y"
        then have "numberToString x = numberToString y" by simp
        then show "x = y" by (rule inj)
      qed
    qed
    ultimately show ?thesis by (rule finite_subset)
  qed
  show ?thesis
  proof (relation "measure (\<lambda>(obj, i, qd). card (keys obj i))")
    show "wf (measure (\<lambda>(obj, i, qd). card (keys obj i)))" by simp
  next
    fix obj :: "(string \<times> strnum) list" and i :: nat and qd :: "(string \<times> strnum) list"
      and cn v
    assume cn: "cn = ''c'' @ numberToString i" and l: "map_of obj cn = Some v"
    from l have "cn \<in> fst ` set obj"
      by (metis map_of_SomeD fst_conv image_eqI)
    with cn have "i \<in> keys obj i" by (simp add: keys_def)
    moreover have "keys obj (Suc i) \<subseteq> keys obj i - {i}" by (auto simp: keys_def)
    ultimately have "keys obj (Suc i) \<subset> keys obj i" by auto
    then have "card (keys obj (Suc i)) < card (keys obj i)"
      by (rule psubset_card_mono [OF fin])
    then show "((obj, Suc i, AList.update cn v qd), obj, i, qd)
      \<in> measure (\<lambda>(obj, i, qd). card (keys obj i))"
      by simp
  qed
qed

declare copyCriteria.simps [simp del]

definition parseQueryUrl :: "string \<Rightarrow> exception + returnObject option" where
  "parseQueryUrl queryString =
     (case split CHR ''&'' queryString of
        [] \<Rightarrow> Inr None
      | first # rest \<Rightarrow>
          (let qMarkPos = indexOf first CHR ''?'' 0;
               url =
                 (if qMarkPos > -1 then
                    (if toLowerCase (substring queryString 0 4) = ''http'' then
                       Some (join CHR ''/'' (take 4 (split CHR ''/'' first)))
                     else if substring queryString 0 1 = ''/'' then
                       Some (substring queryString 0 (indexOf queryString CHR ''/'' 1))
                     else None)
                  else None);
               pairs =
                 (if qMarkPos > -1 then substringFrom first (qMarkPos + 1) # rest
                  else first # rest)
           in case parsePairs pairs [] of
                Inl e \<Rightarrow> Inl e
              | Inr obj \<Rightarrow>
                  if \<not> truthyOpt (map_of obj ''class_name'') then Inr None
                  else
                    (let q1 = copyIfTruthy ''class_name'' obj [];
                         q2 = (if \<not> truthyOpt (map_of obj ''attributes'')
                               then copyIfTruthy ''query'' obj q1 else q1);
                         q3 = copyIfTruthy ''attributes'' obj q2;
                         q4 = copyIfTruthy ''page_size'' obj q3;
                         q5 = copyIfTruthy ''sort_by'' obj q4;
                         q6 = (if truthyOpt (map_of obj ''cns'')
                               then copyCriteria obj 0 (copyIfTruthy ''cns'' obj q5) else q5)
                     in Inr (Some \<lparr>webAccessUrl = url, queryData = q6\<rparr>))))"


section \<open>The query response processor\<close>

text \<open>
  The body of a response, parsed from JSON, is a record: the log-on envelope
  (\<^verbatim>\<open>result\<close>, \<^verbatim>\<open>message\<close>; \<open>None\<close> where the property is absent) that every
  body may carry, extended for a query response by the fields the source documents
  (\<^verbatim>\<open>pageCount\<close> a string or number, \<^verbatim>\<open>objectCount\<close> a number,
  \<^verbatim>\<open>objects\<close> an array).
\<close>

record item =
  value' :: string
  name :: string
  attributes :: "(string \<times> string) list"

record responseData =
  result :: "bool option"
  message :: "string option"

record queryResponse = responseData +
  pageCount :: strnum
  objectCount :: jsnum
  objects :: "item list"

text \<open>The \<^verbatim>\<open>XMLHttpRequest\<close> of a finished exchange, as far as the library reads it.\<close>

record response =
  status :: int
  statusText :: string
  responseText :: string

text \<open>
  \<^verbatim>\<open>query._queryResponseProcessor\<close> changes the body in place; the model returns the
  changed body.
\<close>

definition queryResponseProcessor ::
  "'a queryResponse_scheme \<Rightarrow> response \<Rightarrow> 'a queryResponse_scheme" where
  "queryResponseProcessor responseData resp =
     (if looseEquals (pageCount responseData) 1
      then responseData\<lparr>objectCount := Finite (of_nat (length (objects responseData)))\<rparr>
      else responseData)"

section \<open>The \<^verbatim>\<open>webAccessRequest\<close> orchestrator\<close>

record connectionInfo =
  webAccessUrl :: string
  loginOnDemand :: bool
  loginUser :: string
  loginPass :: string
  loginOnDemandAutoLogOff :: bool

datatype requestType = GET | POST

text \<open>
  The parameters of a request. \<open>onLoad\<close> and \<open>onError\<close> say whether the caller supplied
  the handler; calling it is an effect of the run. \<open>commandPath\<close>, \<open>requestType\<close> and
  \<open>requestData\<close> are \<open>None\<close> for the requests of \<^verbatim>\<open>user.logOn\<close> and
  \<^verbatim>\<open>user.logOff\<close>, which leave them out.
\<close>

record ('d, 'q) parameters =
  connectionInfo :: connectionInfo
  commandPath :: "string option"
  requestType :: "requestType option"
  requestData :: "'q option"
  onLoad :: bool
  onError :: bool
  responseProcessor :: "('d \<Rightarrow> response \<Rightarrow> 'd) option"
  requireJSON :: bool

text \<open>
  The object handed to the caller. A property that the object does not have is \<open>None\<close>:
  a success object is created with \<open>data\<close>, \<open>response\<close> and \<open>statusCode\<close>, a failure
  object with \<open>statusCode\<close> and \<open>errorText\<close>.
\<close>

record 'd outcome =
  data :: "'d option"
  response :: "response option"
  statusCode :: int
  errorText :: "string option"
  loggedOn :: "bool option"
  loggedOff :: "bool option"

text \<open>
  The callbacks a request registers with \<^verbatim>\<open>webAccessConnector.ajax.call\<close>, the data it
  sends, and the method that makes the call.
\<close>

datatype onLoadCallback = OnLoad_m_onLoad | OnLoad_m_loginOnDemandOnLoad | OnLoad_m_logOffDone

datatype onErrorCallback = OnError_m_onError | OnError_m_logOffDone

datatype 'q payload = RequestData "'q option" | FormData string string | NoData

datatype caller = Go | LogOn | LogOff

text \<open>
  What a request does to the outside: a call of the transport, a call of the caller's
  \<^verbatim>\<open>onLoad\<close> or \<^verbatim>\<open>onError\<close> (with \<^verbatim>\<open>m_result\<close>, which is \<open>null\<close> until
  set), or an exception that escapes a callback.
\<close>

datatype ('d, 'q) effect =
    Ajax caller string "requestType option" "'q payload" onLoadCallback onErrorCallback bool
  | Deliver_onLoad "'d outcome"
  | Deliver_onError "'d outcome option"
  | Uncaught exception

text \<open>
  The closure variables of a request, the callbacks of the exchange in flight and the
  effects so far.
\<close>

record ('d, 'q) request =
  m_loginAttempted :: bool
  m_autoLogOff :: bool
  m_loggedOn :: bool
  m_loggedOff :: bool
  m_result :: "'d outcome option"
  m_resultIsSuccess :: bool
  inFlight :: "(onLoadCallback \<times> onErrorCallback) option"
  effects :: "('d, 'q) effect list"

definition webAccessRequest :: "('d, 'q) request" where
  "webAccessRequest =
     \<lparr>m_loginAttempted = False, m_autoLogOff = False, m_loggedOn = False,
      m_loggedOff = False, m_result = None, m_resultIsSuccess = False, inFlight = None,
      effects = []\<rparr>"

text \<open>
  \<^verbatim>\<open>webAccessConnector.ajax.call\<close> starts the exchange; its outcome arrives later as a
  call of one of the two callbacks (see \<open>complete\<close> below).
\<close>

definition ajax_call ::
  "caller \<Rightarrow> string \<Rightarrow> requestType option \<Rightarrow> 'q payload \<Rightarrow> onLoadCallback \<Rightarrow>
   onErrorCallback \<Rightarrow> bool \<Rightarrow> ('d, 'q) request \<Rightarrow> ('d, 'q) request" where
  "ajax_call who url type dat onLoadCb onErrorCb json s =
     s\<lparr>inFlight := Some (onLoadCb, onErrorCb),
       effects := effects s @ [Ajax who url type dat onLoadCb onErrorCb json]\<rparr>"

definition go :: "('d, 'q) parameters \<Rightarrow> ('d, 'q) request \<Rightarrow> ('d, 'q) request" where
  "go p s =
     ajax_call Go (webAccessUrl (connectionInfo p) @ ToString (commandPath p))
       (requestType p) (RequestData (requestData p)) OnLoad_m_onLoad OnError_m_onError
       (requireJSON p) s"

definition logOn :: "('d, 'q) parameters \<Rightarrow> bool \<Rightarrow> ('d, 'q) request \<Rightarrow> ('d, 'q) request" where
  "logOn p onDemand s =
     (let s1 = s\<lparr>m_loginAttempted := True, m_loggedOn := True\<rparr>;
          onLoadCb = (if onDemand then OnLoad_m_loginOnDemandOnLoad else OnLoad_m_onLoad)
      in ajax_call LogOn (webAccessUrl (connectionInfo p) @ ''/wd/Logon/Logon.rails'')
           (Some POST) (FormData (loginUser (connectionInfo p)) (loginPass (connectionInfo p)))
           onLoadCb OnError_m_onError True s1)"

definition logOff :: "('d, 'q) parameters \<Rightarrow> bool \<Rightarrow> ('d, 'q) request \<Rightarrow> ('d, 'q) request" where
  "logOff p onDemand s =
     (let s1 = s\<lparr>m_loggedOff := True\<rparr>;
          onLoadCb = (if onDemand then OnLoad_m_logOffDone else OnLoad_m_onLoad);
          onErrorCb = (if onDemand then OnError_m_logOffDone else OnError_m_onError)
      in ajax_call LogOff (webAccessUrl (connectionInfo p) @ ''/wd/Logon/Logoff.rails'')
           (Some POST) NoData onLoadCb onErrorCb False s1)"

text \<open>
  \<^verbatim>\<open>m_returnLoad\<close> writes the two flags into \<^verbatim>\<open>m_result\<close> (a TypeError if it
  is still \<open>null\<close>) and calls \<^verbatim>\<open>parameters.onLoad\<close> if there is one.
\<close>

definition m_returnLoad :: "('d, 'q) parameters \<Rightarrow> ('d, 'q) request \<Rightarrow> ('d, 'q) request" where
  "m_returnLoad p s =
     (case m_result s of
        None \<Rightarrow> s\<lparr>effects := effects s @ [Uncaught TypeError]\<rparr>
      | Some r \<Rightarrow>
          (let r1 = r\<lparr>loggedOn := Some (m_loggedOn s), loggedOff := Some (m_loggedOff s)\<rparr>;
               s1 = s\<lparr>m_result := Some r1\<rparr>
           in if onLoad p then s1\<lparr>effects := effects s1 @ [Deliver_onLoad r1]\<rparr> else s1))"

definition m_returnError :: "('d, 'q) parameters \<Rightarrow> ('d, 'q) request \<Rightarrow> ('d, 'q) request" where
  "m_returnError p s =
     (if onError p then s\<lparr>effects := effects s @ [Deliver_onError (m_result s)]\<rparr> else s)"

definition m_onLoad ::
  "('d, 'q) parameters \<Rightarrow> 'd \<Rightarrow> response \<Rightarrow> ('d, 'q) request \<Rightarrow> ('d, 'q) request" where
  "m_onLoad p responseData resp s =
     (let d = (case responseProcessor p of
                 None \<Rightarrow> responseData
               | Some f \<Rightarrow> f responseData resp);
          s1 = s\<lparr>m_result :=
                   Some \<lparr>data = Some d, response = Some resp,
                         statusCode = status resp, errorText = None, loggedOn = None,
                         loggedOff = None\<rparr>,
                 m_resultIsSuccess := True\<rparr>
      in if m_autoLogOff s1 then logOff p True s1 else m_returnLoad p s1)"

definition m_onError ::
  "('d, 'q) parameters \<Rightarrow> int \<Rightarrow> string option \<Rightarrow> ('d, 'q) request \<Rightarrow> ('d, 'q) request" where
  "m_onError p code text s =
     (let unauthorized = (code = 403 \<and> m_loginAttempted s = False) in
      if unauthorized \<and> loginOnDemand (connectionInfo p) then logOn p True s
      else
        (let errorText1 = (if unauthorized then Some ''Not Logged In'' else text);
             s1 = s\<lparr>m_result :=
                      Some \<lparr>data = None, response = None, statusCode = code,
                            errorText = errorText1, loggedOn = None, loggedOff = None\<rparr>\<rparr>
         in if m_autoLogOff s1 then logOff p True s1 else m_returnError p s1))"

definition m_loginOnDemandOnLoad ::
  "('a responseData_scheme, 'q) parameters \<Rightarrow> 'a responseData_scheme \<Rightarrow> response \<Rightarrow>
   ('a responseData_scheme, 'q) request \<Rightarrow> ('a responseData_scheme, 'q) request" where
  "m_loginOnDemandOnLoad p responseData resp s =
     (if result responseData = Some False then m_onError p 403 (message responseData) s
      else
        (let s1 = (if loginOnDemandAutoLogOff (connectionInfo p)
                   then s\<lparr>m_autoLogOff := True\<rparr> else s)
         in go p s1))"

definition m_logOffDone :: "('d, 'q) parameters \<Rightarrow> ('d, 'q) request \<Rightarrow> ('d, 'q) request" where
  "m_logOffDone p s = (if m_resultIsSuccess s = True then m_returnLoad p s else m_returnError p s)"

text \<open>
  The transport finishes the exchange in flight and calls one of its two callbacks:
  \<^verbatim>\<open>onLoad(data, response)\<close> or \<^verbatim>\<open>onError(statusCode, errorText)\<close>. A run of a
  request is the list of these outcomes, one for each call it makes, in order; when the
  list ends the request is left waiting, and a request with no exchange in flight reads
  no further.
\<close>

datatype 'd reply = Loaded 'd response | Failed int string

definition complete ::
  "('a responseData_scheme, 'q) parameters \<Rightarrow> 'a responseData_scheme reply \<Rightarrow>
   ('a responseData_scheme, 'q) request \<Rightarrow> ('a responseData_scheme, 'q) request" where
  "complete p reply s =
     (case inFlight s of
        None \<Rightarrow> s
      | Some (onLoadCb, onErrorCb) \<Rightarrow>
          (let s0 = s\<lparr>inFlight := None\<rparr> in
           case reply of
             Loaded d r \<Rightarrow>
               (case onLoadCb of
                  OnLoad_m_onLoad \<Rightarrow> m_onLoad p d r s0
                | OnLoad_m_loginOnDemandOnLoad \<Rightarrow> m_loginOnDemandOnLoad p d r s0
                | OnLoad_m_logOffDone \<Rightarrow> m_logOffDone p s0)
           | Failed c t \<Rightarrow>
               (case onErrorCb of
                  OnError_m_onError \<Rightarrow> m_onError p c (Some t) s0
                | OnError_m_logOffDone \<Rightarrow> m_logOffDone p s0)))"

fun run ::
  "('a responseData_scheme, 'q) parameters \<Rightarrow> ('a responseData_scheme, 'q) request \<Rightarrow>
   'a responseData_scheme reply list \<Rightarrow> ('a responseData_scheme, 'q) request" where
  "run p s [] = s"
| "run p s (reply # replies) = run p (complete p reply s) replies"

text \<open>
  The public methods of a fresh request: \<^verbatim>\<open>request.go()\<close>, and the
  \<^verbatim>\<open>request.logOn()\<close> and \<^verbatim>\<open>request.logOff()\<close> of \<^verbatim>\<open>user.logOn\<close> and
  \<^verbatim>\<open>user.logOff\<close>.
\<close>

fun enter :: "caller \<Rightarrow> ('d, 'q) parameters \<Rightarrow> ('d, 'q) request" where
  "enter Go p = go p webAccessRequest"
| "enter LogOn p = logOn p False webAccessRequest"
| "enter LogOff p = logOff p False webAccessRequest"

text \<open>The calls a run has made: on-demand log-ons, and sends of the request itself.\<close>

fun isOnDemandLogOn :: "('d, 'q) effect \<Rightarrow> bool" where
  "isOnDemandLogOn (Ajax who url type dat onLoadCb onErrorCb json) =
     (who = LogOn \<and> onLoadCb = OnLoad_m_loginOnDemandOnLoad)"
| "isOnDemandLogOn e = False"

fun isGo :: "('d, 'q) effect \<Rightarrow> bool" where
  "isGo (Ajax who url type dat onLoadCb onErrorCb json) = (who = Go)"
| "isGo e = False"

definition onDemandLogOns :: "('d, 'q) request \<Rightarrow> nat" where
  "onDemandLogOns s = length (filter isOnDemandLogOn (effects s))"

definition sends :: "('d, 'q) request \<Rightarrow> nat" where
  "sends s = length (filter isGo (effects s))"

text \<open>
  \<^verbatim>\<open>query.runQuery\<close> creates a request with these parameters and calls its
  \<^verbatim>\<open>go\<close>.
\<close>

definition runQuery ::
  "connectionInfo \<Rightarrow> 'q \<Rightarrow> bool \<Rightarrow> bool \<Rightarrow> ('a queryResponse_scheme, 'q) parameters" where
  "runQuery info qd onLoadGiven onErrorGiven =
     \<lparr>connectionInfo = info, commandPath = Some ''/query/list.rails'',
      requestType = Some GET, requestData = Some qd, onLoad = onLoadGiven,
      onError = onErrorGiven, responseProcessor = Some queryResponseProcessor,
      requireJSON = True\<rparr>"

text \<open>
  \<^verbatim>\<open>record.openRecord\<close> creates a request with these parameters and calls its
  \<^verbatim>\<open>go\<close>.
\<close>

definition openRecord ::
  "connectionInfo \<Rightarrow> string \<Rightarrow> string \<Rightarrow> bool \<Rightarrow> bool \<Rightarrow> ('d, object) parameters" where
  "openRecord info className key onLoadGiven onErrorGiven =
     \<lparr>connectionInfo = info, commandPath = Some ''/object/open.rails'',
      requestType = Some GET,
      requestData = Some [(''class_name'', Str className), (''key'', Str key)],
      onLoad = onLoadGiven, onError = onErrorGiven, responseProcessor = None,
      requireJSON = True\<rparr>"

text \<open>The address of the log-off call.\<close>

definition logOffUrl :: "('d, 'q) parameters \<Rightarrow> string" where
  "logOffUrl p = webAccessUrl (connectionInfo p) @ ''/wd/Logon/Logoff.rails''"

subsection \<open>The invariant of the log-on latch\<close>

text \<open>
  Whether the exchange in flight is an on-demand log-on, and the invariant: before a
  log-on was attempted no on-demand log-on was sent and the request was sent at most
  once; afterwards at most one on-demand log-on was sent, and the request was sent at
  most once while that log-on is in flight and at most twice at any time.
\<close>

definition awaitsLogOn :: "('d, 'q) request \<Rightarrow> bool" where
  "awaitsLogOn s =
     (case inFlight s of None \<Rightarrow> False | Some (l, e) \<Rightarrow> l = OnLoad_m_loginOnDemandOnLoad)"

definition latch :: "('d, 'q) request \<Rightarrow> bool" where
  "latch s =
     (if m_loginAttempted s
      then onDemandLogOns s \<le> 1 \<and> sends s \<le> (if awaitsLogOn s then 1 else 2)
      else onDemandLogOns s = 0 \<and> sends s \<le> 1 \<and> \<not> awaitsLogOn s)"

definition obs :: "('d, 'q) request \<Rightarrow> bool \<times> bool \<times> nat \<times> nat" where
  "obs s = (m_loginAttempted s, awaitsLogOn s, onDemandLogOns s, sends s)"

subsection \<open>The invariant of the deliveries\<close>

text \<open>
  A delivery is a call of the caller's handler. \<open>delivered s e\<close> says how the object of
  a delivery \<open>e\<close> stands to the flags of the request \<open>s\<close>: the object given to
  \<^verbatim>\<open>onLoad\<close> carries both flags, the object given to \<^verbatim>\<open>onError\<close> carries
  neither. The invariant \<open>settled\<close>: a result that is not a success carries no flags,
  an on-demand log-off is in flight only with a result, and there is no delivery while
  an exchange is in flight and at most one afterwards.
\<close>

fun isDelivery :: "('d, 'q) effect \<Rightarrow> bool" where
  "isDelivery (Deliver_onLoad r) = True"
| "isDelivery (Deliver_onError r) = True"
| "isDelivery e = False"

definition unstamped :: "'d outcome \<Rightarrow> bool" where
  "unstamped r = (loggedOn r = None \<and> loggedOff r = None)"

fun delivered :: "('d, 'q) request \<Rightarrow> ('d, 'q) effect \<Rightarrow> bool" where
  "delivered s (Deliver_onLoad r) =
     (loggedOn r = Some (m_loggedOn s) \<and> loggedOff r = Some (m_loggedOff s))"
| "delivered s (Deliver_onError None) = False"
| "delivered s (Deliver_onError (Some r)) = unstamped r"
| "delivered s e = True"

definition awaitsLogOff :: "('d, 'q) request \<Rightarrow> bool" where
  "awaitsLogOff s =
     (case inFlight s of
        None \<Rightarrow> False
      | Some (l, e) \<Rightarrow> l = OnLoad_m_logOffDone \<or> e = OnError_m_logOffDone)"

definition settled :: "('d, 'q) request \<Rightarrow> bool" where
  "settled s =
     ((\<not> m_resultIsSuccess s \<longrightarrow> (case m_result s of None \<Rightarrow> True | Some r \<Rightarrow> unstamped r)) \<and>
      (awaitsLogOff s \<longrightarrow> m_result s \<noteq> None) \<and>
      list_all (delivered s) (effects s) \<and>
      (filter isDelivery (effects s) = [] \<or>
       inFlight s = None \<and> length (filter isDelivery (effects s)) = 1))"

definition quiet :: "('d, 'q) request \<Rightarrow> bool" where
  "quiet s =
     (filter isDelivery (effects s) = [] \<and>
      (\<not> m_resultIsSuccess s \<longrightarrow> (case m_result s of None \<Rightarrow> True | Some r \<Rightarrow> unstamped r)))"


subsection \<open>The invariant of the automatic log-off\<close>

text \<open>
  The automatic log-off is armed, and an on-demand log-on is in flight, only after
  \<^verbatim>\<open>logOn\<close> has set \<^verbatim>\<open>m_loginAttempted\<close> and \<^verbatim>\<open>m_loggedOn\<close>; and once
  a result is a success, nothing but the on-demand log-off is in flight.
\<close>

definition armed :: "('d, 'q) request \<Rightarrow> bool" where
  "armed s =
     ((m_autoLogOff s \<or> awaitsLogOn s \<longrightarrow> m_loginAttempted s \<and> m_loggedOn s) \<and>
      (m_resultIsSuccess s \<longrightarrow>
         inFlight s = None \<or> inFlight s = Some (OnLoad_m_logOffDone, OnError_m_logOffDone)))"

definition obs2 ::
  "('d, 'q) request \<Rightarrow> bool \<times> (onLoadCallback \<times> onErrorCallback) option \<times> bool \<times> bool \<times> bool" where
  "obs2 s = (m_autoLogOff s, inFlight s, m_loginAttempted s, m_loggedOn s, m_resultIsSuccess s)"


subsection \<open>Example requests\<close>

text \<open>
  A connection, an \<^verbatim>\<open>openRecord\<close> request on it, a response with status 200 and the
  body of an accepted log-on, for the concrete checks below.
\<close>

definition exampleInfo :: "bool \<Rightarrow> bool \<Rightarrow> connectionInfo" where
  "exampleInfo onDemand autoLogOff =
     \<lparr>webAccessUrl = ''http://server/ServiceDesk.WebAccess'', loginOnDemand = onDemand,
      loginUser = ''sa'', loginPass = ''secret'', loginOnDemandAutoLogOff = autoLogOff\<rparr>"

definition exampleOpen :: "bool \<Rightarrow> bool \<Rightarrow> (responseData, object) parameters" where
  "exampleOpen onDemand autoLogOff =
     openRecord (exampleInfo onDemand autoLogOff) ''IncidentManagement.Incident'' ''42'' True True"

definition ok :: response where
  "ok = \<lparr>status = 200, statusText = ''OK'', responseText = []\<rparr>"

definition accepted :: responseData where
  "accepted = \<lparr>result = Some True, message = None\<rparr>"


section \<open>\<^verbatim>\<open>metadata.getAttributesForObject\<close>\<close>

text \<open>
  The descriptor of an attribute. \<open>name\<close>, \<open>type\<close> and \<open>relatedClass\<close> are read from
  the row's \<^verbatim>\<open>attributes\<close> and are \<open>undefined\<close> when the row lacks them.
\<close>

record attribute =
  guid :: string
  name :: "string option"
  title :: string
  type :: "string option"
  relatedClass :: "string option"
  isName :: bool
  isPrimaryKey :: bool

text \<open>The parameters of the call; the two handlers as for a request.\<close>

record getAttributesParameters =
  objectGuid :: string
  onLoad :: bool
  onError :: bool

text \<open>
  Each \<^verbatim>\<open>self.query.runQuery\<close> of the traversal is a request of its own, which in
  the end hands an object to \<^verbatim>\<open>getAttributesOnLoad\<close> or to the caller's
  \<^verbatim>\<open>onError\<close>, or never answers. A run of the traversal is the list of these
  completions, one for each query it issues, in order.
\<close>

datatype 'd completion = Succeeded "'d outcome" | Rejected "'d outcome option"

text \<open>
  What the traversal does to the outside: a query for the attributes of a class guid, a
  call of the caller's \<^verbatim>\<open>onLoad\<close> (with \<^verbatim>\<open>result.data\<close> replaced by the
  attribute list) or \<^verbatim>\<open>onError\<close>, or an exception.
\<close>

datatype 'd traversalEffect =
    Query "string option"
  | Call_onLoad "attribute list outcome"
  | Call_onError "'d outcome option"
  | Thrown exception

text \<open>
  The closure variables \<^verbatim>\<open>attributesArray\<close> and \<^verbatim>\<open>attributeNames\<close>, whether a
  query is in flight, and the effects so far.
\<close>

record 'd traversal =
  attributesArray :: "attribute list"
  attributeNames :: "string option list"
  waiting :: bool
  trace :: "'d traversalEffect list"

definition getAttributes :: "string option \<Rightarrow> 'd traversal \<Rightarrow> 'd traversal" where
  "getAttributes g st = st\<lparr>waiting := True, trace := trace st @ [Query g]\<rparr>"

definition attributeOf :: "item \<Rightarrow> attribute" where
  "attributeOf i =
     \<lparr>guid = value' i,
      name = map_of (attributes i) ''Name'',
      title = item.name i,
      type = map_of (attributes i) ''DataType'',
      relatedClass = map_of (attributes i) ''RelatedClassType.Guid'',
      isName = (map_of (attributes i) ''IsName'' = Some ''True''),
      isPrimaryKey = (map_of (attributes i) ''PKeyNumber'' = Some ''1'')\<rparr>"

text \<open>
  The loop over \<^verbatim>\<open>result.data.objects\<close>: a row whose name is not yet in
  \<^verbatim>\<open>attributeNames\<close> is appended to both arrays; every row overwrites
  \<^verbatim>\<open>parentObjectGuid\<close>.
\<close>

fun scan ::
  "item list \<Rightarrow> attribute list \<times> string option list \<times> string option \<Rightarrow>
   attribute list \<times> string option list \<times> string option" where
  "scan [] acc = acc"
| "scan (i # is) (arr, names, parent) =
     (let (arr1, names1) =
            (if map_of (attributes i) ''Name'' \<notin> set names
             then (arr @ [attributeOf i], names @ [attribute.name (attributeOf i)])
             else (arr, names))
      in scan is (arr1, names1, map_of (attributes i) ''Class.SuperClassType.Guid''))"

text \<open>
  \<^verbatim>\<open>getAttributesOnLoad\<close>: scan the rows; with a parent guid other than the empty
  string query the parent; otherwise sort the array by lower-case title and call
  \<^verbatim>\<open>parameters.onLoad\<close> (a TypeError when the caller gave none, or when the result
  has no \<^verbatim>\<open>data\<close>).
\<close>

definition getAttributesOnLoad ::
  "getAttributesParameters \<Rightarrow> 'a queryResponse_scheme outcome \<Rightarrow>
   'a queryResponse_scheme traversal \<Rightarrow> 'a queryResponse_scheme traversal" where
  "getAttributesOnLoad p res st =
     (case data res of
        None \<Rightarrow> st\<lparr>trace := trace st @ [Thrown TypeError]\<rparr>
      | Some d \<Rightarrow>
          (case scan (objects d) (attributesArray st, attributeNames st, Some '''') of
             (arr, names, parentObjectGuid) \<Rightarrow>
               (let st1 = st\<lparr>attributesArray := arr, attributeNames := names\<rparr> in
                if parentObjectGuid \<noteq> Some '''' then getAttributes parentObjectGuid st1
                else
                  (let sorted = sort_key (\<lambda>a. toLowerCase (title a)) arr;
                       st2 = st1\<lparr>attributesArray := sorted\<rparr>
                   in if getAttributesParameters.onLoad p
                      then st2\<lparr>trace := trace st2 @
                             [Call_onLoad
                                \<lparr>data = Some sorted, response = response res,
                                 statusCode = statusCode res, errorText = errorText res,
                                 loggedOn = loggedOn res, loggedOff = loggedOff res\<rparr>]\<rparr>
                      else st2\<lparr>trace := trace st2 @ [Thrown TypeError]\<rparr>))))"

text \<open>The query in flight completes.\<close>

definition answer ::
  "getAttributesParameters \<Rightarrow> 'a queryResponse_scheme completion \<Rightarrow>
   'a queryResponse_scheme traversal \<Rightarrow> 'a queryResponse_scheme traversal" where
  "answer p c st =
     (if waiting st then
        (case c of
           Succeeded res \<Rightarrow> getAttributesOnLoad p res (st\<lparr>waiting := False\<rparr>)
         | Rejected e \<Rightarrow>
             (if getAttributesParameters.onError p
              then st\<lparr>waiting := False, trace := trace st @ [Call_onError e]\<rparr>
              else st\<lparr>waiting := False\<rparr>))
      else st)"

fun traverse ::
  "getAttributesParameters \<Rightarrow> 'a queryResponse_scheme traversal \<Rightarrow>
   'a queryResponse_scheme completion list \<Rightarrow> 'a queryResponse_scheme traversal" where
  "traverse p st [] = st"
| "traverse p st (c # cs) = traverse p (answer p c st) cs"

definition getAttributesForObject ::
  "getAttributesParameters \<Rightarrow> 'a queryResponse_scheme completion list \<Rightarrow>
   'a queryResponse_scheme traversal" where
  "getAttributesForObject p cs =
     traverse p
       (getAttributes (Some (objectGuid p))
          \<lparr>attributesArray = [], attributeNames = [], waiting = False, trace = []\<rparr>)
       cs"

text \<open>The queries and the calls of the caller's handlers in a trace.\<close>

fun isQuery :: "'d traversalEffect \<Rightarrow> bool" where
  "isQuery (Query g) = True"
| "isQuery e = False"

fun isCall :: "'d traversalEffect \<Rightarrow> bool" where
  "isCall (Call_onLoad x) = True"
| "isCall (Call_onError x) = True"
| "isCall e = False"


text \<open>
  The rows of a result, and the parent class guid they report: that of the last row,
  the empty string when there is no row.
\<close>

definition rows :: "'a queryResponse_scheme outcome \<Rightarrow> item list" where
  "rows res = (case data res of None \<Rightarrow> [] | Some d \<Rightarrow> objects d)"

definition reportedParent :: "'a queryResponse_scheme outcome \<Rightarrow> string option" where
  "reportedParent res =
     (case rows res of
        [] \<Rightarrow> Some ''''
      | i # is \<Rightarrow> map_of (attributes (last (i # is))) ''Class.SuperClassType.Guid'')"

text \<open>
  The name a row carries, the rows of a completion, and the rows the traversal has read
  when it has issued \<open>n\<close> queries: those of the first \<open>n\<close> completions.
\<close>

definition itemName :: "item \<Rightarrow> string option" where
  "itemName i = map_of (attributes i) ''Name''"




subsection \<open>Example classes\<close>

text \<open>
  A row of an attribute query, the body and the result of a successful query with given
  rows (as \<^verbatim>\<open>runQuery\<close> delivers it with no log-on), and two classes: a derived class
  with parent guid \<^verbatim>\<open>g0\<close> and its base class, which both define \<^verbatim>\<open>Title\<close>.
\<close>

definition exampleRow :: "string \<Rightarrow> string \<Rightarrow> string \<Rightarrow> item" where
  "exampleRow g n parent =
     \<lparr>value' = g, name = n,
      attributes = [(''Name'', n), (''DataType'', ''String''),
        (''Class.SuperClassType.Guid'', parent)]\<rparr>"

definition exampleBody :: "item list \<Rightarrow> queryResponse" where
  "exampleBody xs =
     \<lparr>result = None, message = None, pageCount = Num (Finite 1),
      objectCount = Finite (of_nat (length xs)), objects = xs\<rparr>"

definition exampleResult :: "item list \<Rightarrow> queryResponse outcome" where
  "exampleResult xs =
     \<lparr>data = Some (exampleBody xs), response = Some ok, statusCode = 200, errorText = None,
      loggedOn = Some False, loggedOff = Some False\<rparr>"

definition derivedClass :: "item list" where
  "derivedClass = [exampleRow ''a1'' ''Title'' ''g0'', exampleRow ''a2'' ''Status'' ''g0'']"

definition baseClass :: "item list" where
  "baseClass = [exampleRow ''b1'' ''Title'' [], exampleRow ''b2'' ''Guid'' []]"

definition exampleTraversal :: getAttributesParameters where
  "exampleTraversal = \<lparr>objectGuid = ''g1'', onLoad = True, onError = True\<rparr>"

section \<open>Saving records: \<^verbatim>\<open>record._prepareSaveData\<close> and its callers\<close>

text \<open>
  The caller's \<^verbatim>\<open>attributeValues\<close> is an object that the caller still holds after
  the call, so objects live in a store: a list of cells, an object being the reference
  \<open>VRef a\<close> to the cell at index \<open>a\<close>, and allocation appending a cell. An object cell
  holds its own properties in creation order; an array cell holds its elements and its
  other properties. The values are the ones JSON carries, and \<open>undefined\<close>: an object
  has data properties only, no accessor and no \<^verbatim>\<open>toJSON\<close> method.
\<close>

datatype jsval = VUndefined | VNull | VBool bool | VNum jsnum | VStr string | VRef nat

datatype cell = ObjectCell "(string \<times> jsval) list" | ArrayCell "jsval list" "(string \<times> jsval) list"

type_synonym store = "cell list"

fun truthyValue :: "jsval \<Rightarrow> bool" where
  "truthyValue VUndefined = False"
| "truthyValue VNull = False"
| "truthyValue (VBool b) = b"
| "truthyValue (VNum n) = truthy (Num n)"
| "truthyValue (VStr s) = (s \<noteq> [])"
| "truthyValue (VRef a) = True"

text \<open>The text that \<^verbatim>\<open>JSON.stringify\<close> writes and \<^verbatim>\<open>JSON.parse\<close> reads, as a tree.\<close>

datatype json =
  JNull | JBool bool | JNum rat | JStr string | JArr "json list" | JObj "(string \<times> json) list"

text \<open>
  \<^verbatim>\<open>JSON.stringify\<close> reads the store and follows references; \<open>stack\<close> holds the
  objects being written, and meeting one of them again is the TypeError of a cyclic
  structure (as is a reference to no cell, which no program can hold). \<open>undefined\<close> has
  no text: the result is \<open>None\<close>, a member with that value is left out, an element with
  that value is written \<open>null\<close>. A number that is not finite is written \<open>null\<close>.
\<close>

function stringify :: "store \<Rightarrow> nat list \<Rightarrow> jsval \<Rightarrow> exception + json option"
  and stringifyElements :: "store \<Rightarrow> nat list \<Rightarrow> jsval list \<Rightarrow> exception + json list"
  and stringifyMembers ::
    "store \<Rightarrow> nat list \<Rightarrow> (string \<times> jsval) list \<Rightarrow> exception + (string \<times> json) list"
where
  "stringify h stack VUndefined = Inr None"
| "stringify h stack VNull = Inr (Some JNull)"
| "stringify h stack (VBool b) = Inr (Some (JBool b))"
| "stringify h stack (VNum n) = Inr (Some (case n of Finite q \<Rightarrow> JNum q | _ \<Rightarrow> JNull))"
| "stringify h stack (VStr s) = Inr (Some (JStr s))"
| "stringify h stack (VRef a) =
     (if a \<in> set stack \<or> length h \<le> a then Inl TypeError
      else
        (case h ! a of
           ObjectCell ps \<Rightarrow>
             (case stringifyMembers h (a # stack) ps of
                Inl e \<Rightarrow> Inl e
              | Inr ms \<Rightarrow> Inr (Some (JObj ms)))
         | ArrayCell vs ps \<Rightarrow>
             (case stringifyElements h (a # stack) vs of
                Inl e \<Rightarrow> Inl e
              | Inr js \<Rightarrow> Inr (Some (JArr js)))))"
| "stringifyElements h stack [] = Inr []"
| "stringifyElements h stack (v # vs) =
     (case stringify h stack v of
        Inl e \<Rightarrow> Inl e
      | Inr j \<Rightarrow>
          (case stringifyElements h stack vs of
             Inl e \<Rightarrow> Inl e
           | Inr js \<Rightarrow> Inr ((case j of None \<Rightarrow> JNull | Some x \<Rightarrow> x) # js)))"
| "stringifyMembers h stack [] = Inr []"
| "stringifyMembers h stack ((k, v) # ps) =
     (case stringify h stack v of
        Inl e \<Rightarrow> Inl e
      | Inr j \<Rightarrow>
          (case stringifyMembers h stack ps of
             Inl e \<Rightarrow> Inl e
           | Inr ms \<Rightarrow> Inr (case j of None \<Rightarrow> ms | Some x \<Rightarrow> (k, x) # ms)))"
  by pat_completeness auto
termination
proof -
  let ?m = "\<lambda>x. case x of
       Inl (h :: store, stack, v :: jsval) \<Rightarrow> (card ({..<length h} - set stack), 0)
     | Inr (Inl (h, stack, vs :: jsval list)) \<Rightarrow>
         (card ({..<length h} - set stack), Suc (length vs))
     | Inr (Inr (h, stack, ps :: (string \<times> jsval) list)) \<Rightarrow>
         (card ({..<length h} - set stack), Suc (length ps))"
  have less: "card ({..<length h} - set (a # stack)) < card ({..<length h} - set stack)"
    if "\<not> (a \<in> set stack \<or> length h \<le> a)" for h :: store and a stack
  proof -
    from that have a: "a \<in> {..<length h} - set stack" by simp
    have "{..<length h} - set (a # stack) = ({..<length h} - set stack) - {a}" by auto
    then have "card ({..<length h} - set (a # stack)) =
        card (({..<length h} - set stack) - {a})"
      by simp
    also have "\<dots> < card ({..<length h} - set stack)"
      by (rule card_Diff1_less) (use a in simp_all)
    finally show ?thesis .
  qed
  show ?thesis
  proof (relation "inv_image (less_than <*lex*> less_than) ?m")
    show "wf (inv_image (less_than <*lex*> less_than) ?m)"
      by (intro wf_inv_image wf_lex_prod wf_less_than)
  next
    fix h :: store and stack a x1
    assume "\<not> (a \<in> set stack \<or> length h \<le> a)"
    then show "(Inr (Inr (h, a # stack, x1)), Inl (h, stack, VRef a)) \<in>
        inv_image (less_than <*lex*> less_than) ?m"
      using less [of a stack h] by simp
  next
    fix h :: store and stack a x21
    assume "\<not> (a \<in> set stack \<or> length h \<le> a)"
    then show "(Inr (Inl (h, a # stack, x21)), Inl (h, stack, VRef a)) \<in>
        inv_image (less_than <*lex*> less_than) ?m"
      using less [of a stack h] by simp
  next
    fix h :: store and stack v vs
    show "(Inl (h, stack, v), Inr (Inl (h, stack, v # vs))) \<in>
        inv_image (less_than <*lex*> less_than) ?m"
      by simp
  next
    fix h :: store and stack :: "nat list" and v :: jsval and vs :: "jsval list"
    show "(Inr (Inl (h, stack, vs)), Inr (Inl (h, stack, v # vs))) \<in>
        inv_image (less_than <*lex*> less_than) ?m"
      by simp
  next
    fix h :: store and stack k v ps
    show "(Inl (h, stack, v), Inr (Inr (h, stack, (k, v) # ps))) \<in>
        inv_image (less_than <*lex*> less_than) ?m"
      by simp
  next
    fix h :: store and stack :: "nat list" and k :: string and v :: jsval
      and ps :: "(string \<times> jsval) list"
    show "(Inr (Inr (h, stack, ps)), Inr (Inr (h, stack, (k, v) # ps))) \<in>
        inv_image (less_than <*lex*> less_than) ?m"
      by simp
  qed
qed

text \<open>\<^verbatim>\<open>JSON.parse\<close> builds the value of a text, allocating a cell for each object and array.\<close>

fun parse :: "json \<Rightarrow> store \<Rightarrow> jsval \<times> store"
  and parseElements :: "json list \<Rightarrow> store \<Rightarrow> jsval list \<times> store"
  and parseMembers ::
    "(string \<times> json) list \<Rightarrow> (string \<times> jsval) list \<Rightarrow> store \<Rightarrow> (string \<times> jsval) list \<times> store"
where
  "parse JNull h = (VNull, h)"
| "parse (JBool b) h = (VBool b, h)"
| "parse (JNum q) h = (VNum (Finite q), h)"
| "parse (JStr s) h = (VStr s, h)"
| "parse (JArr js) h =
     (case parseElements js h of (vs, h1) \<Rightarrow> (VRef (length h1), h1 @ [ArrayCell vs []]))"
| "parse (JObj ms) h =
     (case parseMembers ms [] h of (ps, h1) \<Rightarrow> (VRef (length h1), h1 @ [ObjectCell ps]))"
| "parseElements [] h = ([], h)"
| "parseElements (j # js) h =
     (case parse j h of (v, h1) \<Rightarrow> (case parseElements js h1 of (vs, h2) \<Rightarrow> (v # vs, h2)))"
| "parseMembers [] ps h = (ps, h)"
| "parseMembers ((k, j) # ms) ps h =
     (case parse j h of (v, h1) \<Rightarrow> parseMembers ms (AList.update k v ps) h1)"

text \<open>
  A step that reads and writes the store and may throw, and running one step after
  another: the first exception ends the sequence.
\<close>

type_synonym 'a step = "store \<Rightarrow> (exception + 'a) \<times> store"

definition andThen :: "'a step \<Rightarrow> ('a \<Rightarrow> 'b step) \<Rightarrow> 'b step" where
  "andThen m f h = (case m h of (Inl e, h1) \<Rightarrow> (Inl e, h1) | (Inr x, h1) \<Rightarrow> f x h1)"

text \<open>
  \<^verbatim>\<open>JSON.parse(JSON.stringify(v))\<close>. \<^verbatim>\<open>JSON.parse(undefined)\<close> is a
  SyntaxError.
\<close>

definition parseStringify :: "jsval \<Rightarrow> jsval step" where
  "parseStringify v h =
     (case stringify h [] v of
        Inl e \<Rightarrow> (Inl e, h)
      | Inr None \<Rightarrow> (Inl SyntaxError, h)
      | Inr (Some j) \<Rightarrow> (case parse j h of (w, h1) \<Rightarrow> (Inr w, h1)))"

text \<open>
  \<^verbatim>\<open>target.k = x\<close>: on an object or array it writes the property into the cell; on
  \<open>undefined\<close> or \<open>null\<close> it is a TypeError; on any other primitive it does nothing.
\<close>

definition setProperty :: "jsval \<Rightarrow> string \<Rightarrow> jsval \<Rightarrow> unit step" where
  "setProperty target k x h =
     (case target of
        VUndefined \<Rightarrow> (Inl TypeError, h)
      | VNull \<Rightarrow> (Inl TypeError, h)
      | VRef a \<Rightarrow>
          (if a < length h then
             (case h ! a of
                ObjectCell ps \<Rightarrow> (Inr (), h[a := ObjectCell (AList.update k x ps)])
              | ArrayCell vs ps \<Rightarrow> (Inr (), h[a := ArrayCell vs (AList.update k x ps)]))
           else (Inl TypeError, h))
      | _ \<Rightarrow> (Inr (), h))"

text \<open>\<^verbatim>\<open>if (s) { target.k = s; }\<close> for a string \<open>s\<close> that may be missing.\<close>

definition setIfGiven :: "jsval \<Rightarrow> string \<Rightarrow> string option \<Rightarrow> unit step" where
  "setIfGiven target k s =
     (case s of
        None \<Rightarrow> (\<lambda>h. (Inr (), h))
      | Some t \<Rightarrow> if t \<noteq> [] then setProperty target k (VStr t) else (\<lambda>h. (Inr (), h)))"

text \<open>\<^verbatim>\<open>var createData = {};\<close>\<close>

definition newObject :: "jsval step" where
  "newObject h = (Inr (VRef (length h)), h @ [ObjectCell []])"

definition prepareSaveData :: "string \<Rightarrow> bool \<Rightarrow> jsval \<Rightarrow> jsval step" where
  "prepareSaveData className isNew attributeValues =
     andThen newObject (\<lambda>empty.
     andThen (if truthyValue attributeValues then parseStringify attributeValues
              else (\<lambda>h. (Inr empty, h))) (\<lambda>createData.
     andThen (setProperty createData ''class_name'' (VStr className)) (\<lambda>u.
     andThen (setProperty createData ''is_new'' (VBool isNew)) (\<lambda>u.
     (\<lambda>h. (Inr createData, h))))))"

text \<open>
  \<^verbatim>\<open>record._save\<close> creates a request whose \<^verbatim>\<open>requestData\<close> is the object and
  calls its \<^verbatim>\<open>go\<close>; the transport reads the object's properties and writes nothing.
  The result is the request with its parameters.
\<close>

type_synonym 'd saving = "('d, jsval) parameters \<times> ('d, jsval) request"

definition save :: "connectionInfo \<Rightarrow> jsval \<Rightarrow> bool \<Rightarrow> bool \<Rightarrow> 'd saving step" where
  "save info saveData onLoadGiven onErrorGiven h =
     (let p = \<lparr>connectionInfo = info, commandPath = Some ''/object/save.rails'',
                requestType = Some POST, requestData = Some saveData, onLoad = onLoadGiven,
                onError = onErrorGiven, responseProcessor = None, requireJSON = True\<rparr>
      in (Inr (p, go p webAccessRequest), h))"

definition createRecord ::
  "connectionInfo \<Rightarrow> string \<Rightarrow> jsval \<Rightarrow> bool \<Rightarrow> bool \<Rightarrow> 'd saving step" where
  "createRecord info className attributeValues onLoadGiven onErrorGiven =
     andThen (prepareSaveData className True attributeValues) (\<lambda>createData.
     save info createData onLoadGiven onErrorGiven)"

definition createProcessRecord ::
  "connectionInfo \<Rightarrow> string \<Rightarrow> string option \<Rightarrow> string option \<Rightarrow> jsval \<Rightarrow> bool \<Rightarrow> bool \<Rightarrow>
   'd saving step" where
  "createProcessRecord info className lifecycleName templateName attributeValues onLoadGiven
     onErrorGiven =
     andThen (prepareSaveData className True attributeValues) (\<lambda>createData.
     andThen (setIfGiven createData ''lifecycle_name'' lifecycleName) (\<lambda>u.
     andThen (setIfGiven createData ''object_template_name'' templateName) (\<lambda>u.
     save info createData onLoadGiven onErrorGiven)))"

definition updateRecord ::
  "connectionInfo \<Rightarrow> string \<Rightarrow> string \<Rightarrow> jsval \<Rightarrow> bool \<Rightarrow> bool \<Rightarrow> 'd saving step" where
  "updateRecord info className key attributeValues onLoadGiven onErrorGiven =
     andThen (prepareSaveData className False attributeValues) (\<lambda>updateData.
     andThen (setProperty updateData ''key'' (VStr key)) (\<lambda>u.
     save info updateData onLoadGiven onErrorGiven))"

definition collectionAction ::
  "connectionInfo \<Rightarrow> string \<Rightarrow> string \<Rightarrow> string \<Rightarrow> string \<Rightarrow> jsval \<Rightarrow> bool \<Rightarrow> bool \<Rightarrow>
   'd saving step" where
  "collectionAction info processClassName processKey actionName collectionClassName
     attributeValues onLoadGiven onErrorGiven =
     andThen (prepareSaveData collectionClassName True attributeValues) (\<lambda>actionData.
     andThen (setProperty actionData ''parent_class_name'' (VStr processClassName)) (\<lambda>u.
     andThen (setProperty actionData ''parent_key'' (VStr processKey)) (\<lambda>u.
     andThen (setProperty actionData ''parent_function_name'' (VStr actionName)) (\<lambda>u.
     save info actionData onLoadGiven onErrorGiven))))"

definition updateAction ::
  "connectionInfo \<Rightarrow> string \<Rightarrow> string \<Rightarrow> string \<Rightarrow> jsval \<Rightarrow> bool \<Rightarrow> bool \<Rightarrow> 'd saving step" where
  "updateAction info className key actionName attributeValues onLoadGiven onErrorGiven =
     andThen (prepareSaveData className False attributeValues) (\<lambda>actionData.
     andThen (setProperty actionData ''key'' (VStr key)) (\<lambda>u.
     andThen (setProperty actionData ''function_name'' (VStr actionName)) (\<lambda>u.
     save info actionData onLoadGiven onErrorGiven)))"

text \<open>
  \<open>fresh n v\<close>: the value \<open>v\<close>, if it is an object, is none of the first \<open>n\<close> cells.
  \<open>framed n Q m\<close>: started in a store with at least \<open>n\<close> cells, the step \<open>m\<close> leaves
  the first \<open>n\<close> cells as they were, and what it returns satisfies \<open>Q\<close>. \<open>kept h m\<close>:
  started in the store \<open>h\<close>, the step \<open>m\<close> leaves every cell of \<open>h\<close> as it was.
\<close>

definition fresh :: "nat \<Rightarrow> jsval \<Rightarrow> bool" where
  "fresh n v = (case v of VRef a \<Rightarrow> n \<le> a | _ \<Rightarrow> True)"

definition framed :: "nat \<Rightarrow> ('a \<Rightarrow> bool) \<Rightarrow> 'a step \<Rightarrow> bool" where
  "framed n Q m =
     (\<forall>h. n \<le> length h \<longrightarrow>
        take n (snd (m h)) = take n h \<and> (case fst (m h) of Inl e \<Rightarrow> True | Inr x \<Rightarrow> Q x))"

definition kept :: "store \<Rightarrow> 'a step \<Rightarrow> bool" where
  "kept h m = prefix h (snd (m h))"

text \<open>The object a started request sends.\<close>

definition sent :: "'d saving \<Rightarrow> jsval" where
  "sent r = (case requestData (fst r) of None \<Rightarrow> VUndefined | Some v \<Rightarrow> v)"

subsection \<open>Example store\<close>

text \<open>
  A store with the caller's \<^verbatim>\<open>attributeValues\<close> at index \<open>0\<close>, one of whose values
  is the object at index \<open>1\<close>.
\<close>

definition exampleStore :: store where
  "exampleStore =
     [ObjectCell [(''Title'', VStr ''Printer''), (''RaiseUser'', VRef 1)],
      ObjectCell [(''Name'', VStr ''sa'')]]"


chapter \<open>Properties\<close>

section \<open>\<^verbatim>\<open>parseQueryUrl\<close>\<close>





text \<open>
  C7, as the code has it. For the input
  \<^verbatim>\<open>https://host/app?class_name=Incident&query=MyQuery&page_size=50\<close> the result is
  \<open>queryData\<close> with \<open>class_name\<close> \<^verbatim>\<open>"Incident"\<close>, \<open>query\<close> \<^verbatim>\<open>"MyQuery"\<close> and
  \<open>page_size\<close> the number \<open>50\<close>; \<open>webAccessUrl\<close> is the first four \<open>/\<close>-separated
  pieces of the text before the first \<open>&\<close>, which for this input still holds the first
  parameter: \<^verbatim>\<open>https://host/app?class_name=Incident\<close>.
\<close>

theorem parseQueryUrl_example:
  "parseQueryUrl ''https://host/app?class_name=Incident&query=MyQuery&page_size=50'' =
     Inr (Some \<lparr>returnObject.webAccessUrl = Some ''https://host/app?class_name=Incident'',
       queryData = [(''class_name'', Str ''Incident''), (''query'', Str ''MyQuery''),
         (''page_size'', Num (Finite 50))]\<rparr>)"
  by code_simp

text \<open>
  C7 as the specification states it (\<open>webAccessUrl\<close> \<^verbatim>\<open>https://host/app\<close>) does not
  hold of the code.
\<close>

theorem parseQueryUrl_example_not_as_specified:
  "parseQueryUrl ''https://host/app?class_name=Incident&query=MyQuery&page_size=50'' \<noteq>
     Inr (Some \<lparr>returnObject.webAccessUrl = Some ''https://host/app'',
       queryData = [(''class_name'', Str ''Incident''), (''query'', Str ''MyQuery''),
         (''page_size'', Num (Finite 50))]\<rparr>)"
  by code_simp




section \<open>The query response processor\<close>



section \<open>The orchestrator: one log-on attempt\<close>

lemma count_update [simp]:
  "onDemandLogOns (m_result_update f1 s) = onDemandLogOns s"
  "onDemandLogOns (m_resultIsSuccess_update f2 s) = onDemandLogOns s"
  "onDemandLogOns (m_autoLogOff_update f2 s) = onDemandLogOns s"
  "onDemandLogOns (m_loggedOn_update f2 s) = onDemandLogOns s"
  "onDemandLogOns (m_loggedOff_update f2 s) = onDemandLogOns s"
  "onDemandLogOns (m_loginAttempted_update f2 s) = onDemandLogOns s"
  "onDemandLogOns (inFlight_update f3 s) = onDemandLogOns s"
  "sends (m_result_update f1 s) = sends s"
  "sends (m_resultIsSuccess_update f2 s) = sends s"
  "sends (m_autoLogOff_update f2 s) = sends s"
  "sends (m_loggedOn_update f2 s) = sends s"
  "sends (m_loggedOff_update f2 s) = sends s"
  "sends (m_loginAttempted_update f2 s) = sends s"
  "sends (inFlight_update f3 s) = sends s"
  "awaitsLogOn (m_result_update f1 s) = awaitsLogOn s"
  "awaitsLogOn (m_resultIsSuccess_update f2 s) = awaitsLogOn s"
  "awaitsLogOn (m_autoLogOff_update f2 s) = awaitsLogOn s"
  "awaitsLogOn (m_loggedOn_update f2 s) = awaitsLogOn s"
  "awaitsLogOn (m_loggedOff_update f2 s) = awaitsLogOn s"
  "awaitsLogOn (m_loginAttempted_update f2 s) = awaitsLogOn s"
  by (simp_all add: onDemandLogOns_def sends_def awaitsLogOn_def)

lemma obs_ajax_call:
  "obs (ajax_call who url ty dat l e j s) =
     (m_loginAttempted s, l = OnLoad_m_loginOnDemandOnLoad,
      onDemandLogOns s + (if who = LogOn \<and> l = OnLoad_m_loginOnDemandOnLoad then 1 else 0),
      sends s + (if who = Go then 1 else 0))"
  by (simp add: obs_def ajax_call_def awaitsLogOn_def onDemandLogOns_def sends_def)

lemma obs_update [simp]:
  "obs (s\<lparr>m_result := r\<rparr>) = obs s"
  "obs (s\<lparr>m_resultIsSuccess := b\<rparr>) = obs s"
  "obs (s\<lparr>m_autoLogOff := b\<rparr>) = obs s"
  "obs (s\<lparr>m_loggedOn := b\<rparr>) = obs s"
  "obs (s\<lparr>m_loggedOff := b\<rparr>) = obs s"
  "obs (s\<lparr>m_loginAttempted := b\<rparr>) = (b, snd (obs s))"
  "obs (s\<lparr>inFlight := None\<rparr>) = (m_loginAttempted s, False, onDemandLogOns s, sends s)"
  "obs (s\<lparr>effects := effects s @ [Deliver_onLoad x]\<rparr>) = obs s"
  "obs (s\<lparr>effects := effects s @ [Deliver_onError y]\<rparr>) = obs s"
  "obs (s\<lparr>effects := effects s @ [Uncaught z]\<rparr>) = obs s"
  by (simp_all add: obs_def awaitsLogOn_def onDemandLogOns_def sends_def)

lemma obs_go: "obs (go p s) = (m_loginAttempted s, False, onDemandLogOns s, Suc (sends s))"
  by (simp add: go_def obs_ajax_call)

lemma obs_logOn:
  "obs (logOn p onDemand s) = (True, onDemand, onDemandLogOns s + (if onDemand then 1 else 0), sends s)"
  by (simp add: logOn_def obs_ajax_call Let_def)

lemma obs_logOff: "obs (logOff p onDemand s) = (m_loginAttempted s, False, onDemandLogOns s, sends s)"
  by (simp add: logOff_def obs_ajax_call Let_def)

lemma obs_m_returnLoad: "obs (m_returnLoad p s) = obs s"
  by (simp add: m_returnLoad_def Let_def split: option.splits) (simp add: obs_def awaitsLogOn_def onDemandLogOns_def sends_def)

lemma obs_m_returnError: "obs (m_returnError p s) = obs s"
  by (simp add: m_returnError_def)

lemma obs_m_logOffDone: "obs (m_logOffDone p s) = obs s"
  by (simp add: m_logOffDone_def obs_m_returnLoad obs_m_returnError)

lemma obs_m_onLoad:
  "obs (m_onLoad p d r s) = (m_loginAttempted s, \<not> m_autoLogOff s \<and> awaitsLogOn s, onDemandLogOns s, sends s)"
  by (simp add: m_onLoad_def Let_def obs_logOff obs_m_returnLoad) (simp add: obs_def)

lemma obs_m_onError:
  "obs (m_onError p c t s) =
     (if c = 403 \<and> \<not> m_loginAttempted s \<and> loginOnDemand (connectionInfo p)
      then (True, True, Suc (onDemandLogOns s), sends s)
      else (m_loginAttempted s, \<not> m_autoLogOff s \<and> awaitsLogOn s, onDemandLogOns s, sends s))"
  by (simp add: m_onError_def Let_def obs_logOn obs_logOff obs_m_returnError) (simp add: obs_def)

lemma obs_m_loginOnDemandOnLoad:
  "m_loginAttempted s \<Longrightarrow> obs (m_loginOnDemandOnLoad p d r s) =
     (if result d = Some False
      then (True, \<not> m_autoLogOff s \<and> awaitsLogOn s, onDemandLogOns s, sends s)
      else (True, False, onDemandLogOns s, Suc (sends s)))"
  by (simp add: m_loginOnDemandOnLoad_def Let_def obs_m_onError obs_go)

lemma latch_obs: "latch s = (case obs s of (a, w, n, g) \<Rightarrow>
    if a then n \<le> 1 \<and> g \<le> (if w then 1 else 2) else n = 0 \<and> g \<le> 1 \<and> \<not> w)"
  by (simp add: latch_def obs_def)

lemma latch_complete: "latch s \<Longrightarrow> latch (complete p reply s)"
proof (cases "inFlight s")
  case None
  then show "latch s \<Longrightarrow> ?thesis" by (simp add: complete_def)
next
  case (Some cbs)
  obtain l e where cbs: "cbs = (l, e)" by (cases cbs)
  let ?s0 = "s\<lparr>inFlight := None\<rparr>"
  assume inv: "latch s"
  have s0: "m_loginAttempted ?s0 = m_loginAttempted s" "onDemandLogOns ?s0 = onDemandLogOns s"
    "sends ?s0 = sends s" "awaitsLogOn ?s0 = False" "m_autoLogOff ?s0 = m_autoLogOff s"
    by (simp_all add: onDemandLogOns_def sends_def awaitsLogOn_def)
  have w: "awaitsLogOn s = (l = OnLoad_m_loginOnDemandOnLoad)"
    using Some cbs by (simp add: awaitsLogOn_def)
  show ?thesis
  proof (cases reply)
    case (Loaded d r)
    show ?thesis
    proof (cases l)
      case OnLoad_m_onLoad
      with inv w Some cbs Loaded show ?thesis
        by (simp add: complete_def latch_obs obs_m_onLoad s0) (simp add: obs_def split: if_splits)
    next
      case OnLoad_m_loginOnDemandOnLoad
      with inv w have a: "m_loginAttempted s" by (auto simp: latch_def split: if_splits)
      with OnLoad_m_loginOnDemandOnLoad inv w Some cbs Loaded show ?thesis
        by (simp add: complete_def latch_obs obs_m_loginOnDemandOnLoad s0) (simp add: obs_def split: if_splits)
    next
      case OnLoad_m_logOffDone
      with inv w Some cbs Loaded show ?thesis
        by (simp add: complete_def latch_obs obs_m_logOffDone s0) (simp add: obs_def split: if_splits)
    qed
  next
    case (Failed c t)
    show ?thesis
    proof (cases e)
      case OnError_m_onError
      with inv w Some cbs Failed show ?thesis
        by (simp add: complete_def latch_obs obs_m_onError s0) (auto simp add: obs_def split: if_splits)
    next
      case OnError_m_logOffDone
      with inv w Some cbs Failed show ?thesis
        by (simp add: complete_def latch_obs obs_m_logOffDone s0) (simp add: obs_def split: if_splits)
    qed
  qed
qed

lemma latch_run: "latch s \<Longrightarrow> latch (run p s replies)"
  by (induction replies arbitrary: s) (auto intro: latch_complete)

lemma latch_enter: "latch (enter who p)"
  by (cases who)
     (simp_all add: latch_obs obs_go obs_logOn obs_logOff,
      simp_all add: webAccessRequest_def onDemandLogOns_def sends_def)

lemmas example_defs = exampleOpen_def openRecord_def exampleInfo_def ok_def accepted_def
  webAccessRequest_def complete_def go_def logOn_def logOff_def ajax_call_def m_onLoad_def
  m_onError_def m_returnLoad_def m_returnError_def m_loginOnDemandOnLoad_def m_logOffDone_def
  Let_def logOffUrl_def

text \<open>
  C1. However the transport answers, a request sends at most one on-demand log-on and
  sends the request itself at most twice (the first send and one replay), also when the
  replay fails with status 403; and in every state in which an on-demand log-on has been
  sent, \<^verbatim>\<open>m_loginAttempted\<close> is set.
\<close>

theorem one_logOn_attempt:
  "onDemandLogOns (run p (enter who p) replies) \<le> 1 \<and>
   sends (run p (enter who p) replies) \<le> 2 \<and>
   (0 < onDemandLogOns (run p (enter who p) replies) \<longrightarrow>
      m_loginAttempted (run p (enter who p) replies))"
  using latch_run [where s = "enter who p" and p = p and replies = replies]
    latch_enter [of who p]
  by (auto simp: latch_def split: if_splits)

theorem one_logOn_attempt_witness:
  "onDemandLogOns (run (exampleOpen True False) (enter Go (exampleOpen True False))
     [Failed 403 ''Forbidden (403)'', Loaded accepted ok, Failed 403 ''Forbidden (403)'']) = 1 \<and>
   sends (run (exampleOpen True False) (enter Go (exampleOpen True False))
     [Failed 403 ''Forbidden (403)'', Loaded accepted ok, Failed 403 ''Forbidden (403)'']) = 2 \<and>
   m_loginAttempted (run (exampleOpen True False) (enter Go (exampleOpen True False))
     [Failed 403 ''Forbidden (403)'', Loaded accepted ok, Failed 403 ''Forbidden (403)''])"
proof -
  let ?s = "run (exampleOpen True False) (enter Go (exampleOpen True False))
     [Failed 403 ''Forbidden (403)'', Loaded accepted ok, Failed 403 ''Forbidden (403)'']"
  have n: "onDemandLogOns ?s = 1" and m: "sends ?s = 2"
    by (simp_all add: example_defs onDemandLogOns_def sends_def)
  from n have "0 < onDemandLogOns ?s" by simp
  with one_logOn_attempt [of "exampleOpen True False" Go
      "[Failed 403 ''Forbidden (403)'', Loaded accepted ok, Failed 403 ''Forbidden (403)'']"]
  have "m_loginAttempted ?s" by blast
  with n m show ?thesis by simp
qed

section \<open>The orchestrator: deliveries\<close>

lemma not_delivery: "\<not> isDelivery e \<Longrightarrow> delivered s e"
  by (cases e) simp_all

lemma no_delivery: "filter isDelivery es = [] \<Longrightarrow> list_all (delivered s) es"
  by (induction es) (auto simp: not_delivery split: if_splits)

lemma settled_ajax_call:
  "quiet s \<Longrightarrow> (l = OnLoad_m_logOffDone \<or> e = OnError_m_logOffDone \<longrightarrow> m_result s \<noteq> None) \<Longrightarrow>
   settled (ajax_call who url ty dat l e j s)"
  by (simp add: quiet_def settled_def ajax_call_def awaitsLogOff_def no_delivery)

lemma settled_go: "quiet s \<Longrightarrow> settled (go p s)"
  unfolding go_def by (rule settled_ajax_call) simp_all

lemma settled_logOn: "quiet s \<Longrightarrow> settled (logOn p d s)"
  unfolding logOn_def Let_def by (rule settled_ajax_call) (simp_all add: quiet_def)

lemma settled_logOff: "quiet s \<Longrightarrow> (d \<longrightarrow> m_result s \<noteq> None) \<Longrightarrow> settled (logOff p d s)"
  unfolding logOff_def Let_def by (rule settled_ajax_call) (simp_all add: quiet_def)

lemma settled_m_returnLoad:
  assumes "quiet s" "inFlight s = None" "m_resultIsSuccess s"
  shows "settled (m_returnLoad p s)"
proof (cases "m_result s")
  case None
  with assms show ?thesis
    by (simp add: quiet_def settled_def m_returnLoad_def awaitsLogOff_def no_delivery)
next
  case (Some r)
  with assms show ?thesis
    by (simp add: quiet_def settled_def m_returnLoad_def awaitsLogOff_def no_delivery Let_def)
qed

lemma settled_m_returnError:
  assumes "quiet s" "inFlight s = None" "m_result s = Some r" "unstamped r"
  shows "settled (m_returnError p s)"
  using assms
  by (simp add: quiet_def settled_def m_returnError_def awaitsLogOff_def no_delivery)

lemma settled_m_onLoad:
  assumes "quiet s" "inFlight s = None"
  shows "settled (m_onLoad p d r s)"
proof -
  let ?s1 = "s\<lparr>m_result :=
      Some \<lparr>data = Some (case responseProcessor p of None \<Rightarrow> d | Some f \<Rightarrow> f d r),
        response = Some r, statusCode = status r, errorText = None, loggedOn = None,
        loggedOff = None\<rparr>,
      m_resultIsSuccess := True\<rparr>"
  have q: "quiet ?s1" using assms by (simp add: quiet_def)
  have "settled (logOff p True ?s1)" by (rule settled_logOff [OF q]) simp
  moreover have "settled (m_returnLoad p ?s1)"
    by (rule settled_m_returnLoad [OF q]) (simp_all add: assms)
  ultimately show ?thesis by (simp add: m_onLoad_def Let_def)
qed

lemma settled_m_onError:
  assumes "quiet s" "inFlight s = None"
  shows "settled (m_onError p c t s)"
proof -
  let ?r = "\<lambda>x. \<lparr>data = None, response = None, statusCode = c, errorText = x,
      loggedOn = None, loggedOff = None\<rparr> :: 'a outcome"
  have q: "quiet (s\<lparr>m_result := Some (?r x)\<rparr>)" for x
    using assms by (simp add: quiet_def unstamped_def)
  have a: "settled (logOff p True (s\<lparr>m_result := Some (?r x)\<rparr>))" for x
    by (rule settled_logOff [OF q]) simp
  have b: "settled (m_returnError p (s\<lparr>m_result := Some (?r x)\<rparr>))" for x
    by (rule settled_m_returnError [OF q, where r = "?r x"]) (simp_all add: assms unstamped_def)
  show ?thesis
    using a b settled_logOn [OF assms(1), of p True]
    by (simp add: m_onError_def Let_def)
qed

lemma settled_m_loginOnDemandOnLoad:
  assumes "quiet s" "inFlight s = None"
  shows "settled (m_loginOnDemandOnLoad p d r s)"
proof -
  have "quiet (s\<lparr>m_autoLogOff := True\<rparr>)" using assms by (simp add: quiet_def)
  then show ?thesis
    using settled_m_onError [OF assms] settled_go [OF assms(1)]
    by (simp add: m_loginOnDemandOnLoad_def Let_def settled_go)
qed

lemma settled_m_logOffDone:
  assumes "quiet s" "inFlight s = None" "m_result s \<noteq> None"
  shows "settled (m_logOffDone p s)"
proof (cases "m_resultIsSuccess s")
  case True
  then show ?thesis using assms by (simp add: m_logOffDone_def settled_m_returnLoad)
next
  case False
  from assms(3) obtain r where r: "m_result s = Some r" by auto
  with False assms(1) have "unstamped r" by (simp add: quiet_def)
  with False r assms show ?thesis by (simp add: m_logOffDone_def settled_m_returnError)
qed

lemma settled_complete: "settled s \<Longrightarrow> settled (complete p reply s)"
proof (cases "inFlight s")
  case None
  then show "settled s \<Longrightarrow> ?thesis" by (simp add: complete_def)
next
  case (Some cbs)
  obtain l e where cbs: "cbs = (l, e)" by (cases cbs)
  assume inv: "settled s"
  let ?s0 = "s\<lparr>inFlight := None\<rparr>"
  from inv Some have q: "quiet ?s0" and f: "inFlight ?s0 = None"
    by (simp_all add: settled_def quiet_def)
  from inv Some cbs have off: "l = OnLoad_m_logOffDone \<or> e = OnError_m_logOffDone \<Longrightarrow>
      m_result ?s0 \<noteq> None"
    by (simp add: settled_def awaitsLogOff_def)
  show ?thesis
  proof (cases reply)
    case (Loaded d r)
    with Some cbs off show ?thesis
      by (cases l)
        (simp_all add: complete_def settled_m_onLoad [OF q f]
          settled_m_loginOnDemandOnLoad [OF q f] settled_m_logOffDone [OF q f])
  next
    case (Failed c t)
    with Some cbs off show ?thesis
      by (cases e)
        (simp_all add: complete_def settled_m_onError [OF q f] settled_m_logOffDone [OF q f])
  qed
qed

lemma settled_run: "settled s \<Longrightarrow> settled (run p s replies)"
  by (induction replies arbitrary: s) (auto intro: settled_complete)

lemma settled_enter: "settled (enter who p)"
  by (cases who)
    (simp_all add: settled_go settled_logOn settled_logOff quiet_def webAccessRequest_def)

text \<open>
  C5, as the code has it. A request makes at most one delivery. The object it hands to
  the caller's \<^verbatim>\<open>onLoad\<close> carries \<open>loggedOn\<close> and \<open>loggedOff\<close>, set to the flags
  of the request; the object it hands to \<^verbatim>\<open>onError\<close> carries neither flag.
\<close>

theorem deliveries_flags:
  "list_all (delivered (run p (enter who p) replies)) (effects (run p (enter who p) replies)) \<and>
   length (filter isDelivery (effects (run p (enter who p) replies))) \<le> 1"
  using settled_run [where s = "enter who p" and p = p and replies = replies]
    settled_enter [of who p]
  by (auto simp: settled_def)

theorem deliveries_flags_witness:
  "effects (run (exampleOpen False False) (enter Go (exampleOpen False False))
     [Loaded accepted ok]) =
     [Ajax Go ''http://server/ServiceDesk.WebAccess/object/open.rails'' (Some GET)
        (RequestData (Some [(''class_name'', Str ''IncidentManagement.Incident''),
           (''key'', Str ''42'')]))
        OnLoad_m_onLoad OnError_m_onError True,
      Deliver_onLoad
        \<lparr>data = Some accepted, response = Some ok, statusCode = 200, errorText = None,
         loggedOn = Some False, loggedOff = Some False\<rparr>] \<and>
   list_all (delivered (run (exampleOpen False False) (enter Go (exampleOpen False False))
       [Loaded accepted ok]))
     (effects (run (exampleOpen False False) (enter Go (exampleOpen False False))
       [Loaded accepted ok]))"
proof -
  have "effects (run (exampleOpen False False) (enter Go (exampleOpen False False))
     [Loaded accepted ok]) =
     [Ajax Go ''http://server/ServiceDesk.WebAccess/object/open.rails'' (Some GET)
        (RequestData (Some [(''class_name'', Str ''IncidentManagement.Incident''),
           (''key'', Str ''42'')]))
        OnLoad_m_onLoad OnError_m_onError True,
      Deliver_onLoad
        \<lparr>data = Some accepted, response = Some ok, statusCode = 200, errorText = None,
         loggedOn = Some False, loggedOff = Some False\<rparr>]"
    by (simp add: example_defs ToString_def)
  with deliveries_flags [of "exampleOpen False False" Go "[Loaded accepted ok]"]
  show ?thesis by blast
qed

text \<open>
  C5 as the specification states it does not hold of the code: the object that a failed
  request hands to \<^verbatim>\<open>onError\<close> has neither flag.
\<close>

theorem failure_delivered_without_flags:
  "effects (run (exampleOpen False False) (enter Go (exampleOpen False False))
     [Failed 500 ''Internal Server Error (500)'']) ! 1 =
   Deliver_onError
     (Some \<lparr>data = None, response = None, statusCode = 500,
        errorText = Some ''Internal Server Error (500)'', loggedOn = None, loggedOff = None\<rparr>)"
  by (simp add: example_defs)

section \<open>The orchestrator: automatic log-off\<close>

lemma armed_obs2:
  "armed s = (case obs2 s of (a, f, l, n, k) \<Rightarrow>
     (a \<or> (case f of None \<Rightarrow> False | Some (x, y) \<Rightarrow> x = OnLoad_m_loginOnDemandOnLoad) \<longrightarrow> l \<and> n) \<and>
     (k \<longrightarrow> f = None \<or> f = Some (OnLoad_m_logOffDone, OnError_m_logOffDone)))"
  by (simp add: armed_def obs2_def awaitsLogOn_def)

lemma obs2_ajax_call:
  "obs2 (ajax_call who url ty dat l e j s) =
     (m_autoLogOff s, Some (l, e), m_loginAttempted s, m_loggedOn s, m_resultIsSuccess s)"
  by (simp add: obs2_def ajax_call_def)

lemma obs2_go:
  "obs2 (go p s) =
     (m_autoLogOff s, Some (OnLoad_m_onLoad, OnError_m_onError), m_loginAttempted s,
      m_loggedOn s, m_resultIsSuccess s)"
  by (simp add: go_def obs2_ajax_call)

lemma obs2_logOn:
  "obs2 (logOn p d s) =
     (m_autoLogOff s,
      Some (if d then OnLoad_m_loginOnDemandOnLoad else OnLoad_m_onLoad, OnError_m_onError),
      True, True, m_resultIsSuccess s)"
  by (simp add: logOn_def obs2_ajax_call Let_def)

lemma obs2_logOff:
  "obs2 (logOff p d s) =
     (m_autoLogOff s,
      Some (if d then OnLoad_m_logOffDone else OnLoad_m_onLoad,
            if d then OnError_m_logOffDone else OnError_m_onError),
      m_loginAttempted s, m_loggedOn s, m_resultIsSuccess s)"
  by (simp add: logOff_def obs2_ajax_call Let_def)

lemma obs2_m_returnLoad: "obs2 (m_returnLoad p s) = obs2 s"
  by (cases "m_result s") (simp_all add: m_returnLoad_def Let_def obs2_def)

lemma obs2_m_returnError: "obs2 (m_returnError p s) = obs2 s"
  by (simp add: m_returnError_def obs2_def)

lemma obs2_m_logOffDone: "obs2 (m_logOffDone p s) = obs2 s"
  by (simp add: m_logOffDone_def obs2_m_returnLoad obs2_m_returnError)

lemma obs2_m_onLoad:
  "obs2 (m_onLoad p d r s) =
     (m_autoLogOff s,
      if m_autoLogOff s then Some (OnLoad_m_logOffDone, OnError_m_logOffDone) else inFlight s,
      m_loginAttempted s, m_loggedOn s, True)"
  by (simp add: m_onLoad_def Let_def obs2_logOff obs2_m_returnLoad)
     ((simp_all add: obs2_def)?)

lemma obs2_m_onError:
  "obs2 (m_onError p c t s) =
     (if c = 403 \<and> \<not> m_loginAttempted s \<and> loginOnDemand (connectionInfo p)
      then (m_autoLogOff s, Some (OnLoad_m_loginOnDemandOnLoad, OnError_m_onError), True, True,
            m_resultIsSuccess s)
      else (m_autoLogOff s,
            if m_autoLogOff s then Some (OnLoad_m_logOffDone, OnError_m_logOffDone)
            else inFlight s,
            m_loginAttempted s, m_loggedOn s, m_resultIsSuccess s))"
  by (simp add: m_onError_def Let_def obs2_logOn obs2_logOff obs2_m_returnError)
     ((simp_all add: obs2_def)?)

lemma obs2_m_loginOnDemandOnLoad:
  "m_loginAttempted s \<Longrightarrow> obs2 (m_loginOnDemandOnLoad p d r s) =
     (if result d = Some False
      then (m_autoLogOff s,
            if m_autoLogOff s then Some (OnLoad_m_logOffDone, OnError_m_logOffDone)
            else inFlight s,
            True, m_loggedOn s, m_resultIsSuccess s)
      else (m_autoLogOff s \<or> loginOnDemandAutoLogOff (connectionInfo p),
            Some (OnLoad_m_onLoad, OnError_m_onError), True, m_loggedOn s,
            m_resultIsSuccess s))"
  by (simp add: m_loginOnDemandOnLoad_def Let_def obs2_m_onError obs2_go)
     ((simp_all add: obs2_def)?)

lemma armed_complete: "armed s \<Longrightarrow> armed (complete p reply s)"
proof (cases "inFlight s")
  case None
  then show "armed s \<Longrightarrow> ?thesis" by (simp add: complete_def)
next
  case (Some cbs)
  obtain l e where cbs: "cbs = (l, e)" by (cases cbs)
  let ?s0 = "s\<lparr>inFlight := None\<rparr>"
  assume inv: "armed s"
  have s0: "obs2 ?s0 = (m_autoLogOff s, None, m_loginAttempted s, m_loggedOn s, m_resultIsSuccess s)"
    by (simp add: obs2_def)
  have s0': "m_autoLogOff ?s0 = m_autoLogOff s" "m_loginAttempted ?s0 = m_loginAttempted s"
    "m_loggedOn ?s0 = m_loggedOn s" "m_resultIsSuccess ?s0 = m_resultIsSuccess s"
    "inFlight ?s0 = None"
    by simp_all
  from inv Some cbs have i1: "m_autoLogOff s \<or> l = OnLoad_m_loginOnDemandOnLoad \<Longrightarrow>
      m_loginAttempted s \<and> m_loggedOn s"
    by (simp add: armed_def awaitsLogOn_def)
  from inv Some cbs have i2: "m_resultIsSuccess s \<Longrightarrow> l = OnLoad_m_logOffDone \<and> e = OnError_m_logOffDone"
    by (simp add: armed_def)
  show ?thesis
  proof (cases reply)
    case (Loaded d r)
    show ?thesis
    proof (cases l)
      case OnLoad_m_onLoad
      with i1 i2 Some cbs Loaded show ?thesis
        by (auto simp add: complete_def armed_obs2 obs2_m_onLoad s0')
    next
      case OnLoad_m_loginOnDemandOnLoad
      with i1 have a: "m_loginAttempted ?s0" by simp
      from OnLoad_m_loginOnDemandOnLoad i1 i2 Some cbs Loaded show ?thesis
        by (auto simp add: complete_def armed_obs2 obs2_m_loginOnDemandOnLoad [OF a] s0')
    next
      case OnLoad_m_logOffDone
      with i1 i2 Some cbs Loaded show ?thesis
        by (auto simp add: complete_def armed_obs2 obs2_m_logOffDone s0)
    qed
  next
    case (Failed c t)
    show ?thesis
    proof (cases e)
      case OnError_m_onError
      with i1 i2 Some cbs Failed show ?thesis
        by (auto simp add: complete_def armed_obs2 obs2_m_onError s0')
    next
      case OnError_m_logOffDone
      with i1 i2 Some cbs Failed show ?thesis
        by (auto simp add: complete_def armed_obs2 obs2_m_logOffDone s0)
    qed
  qed
qed

lemma armed_run: "armed s \<Longrightarrow> armed (run p s replies)"
  by (induction replies arbitrary: s) (auto intro: armed_complete)

lemma armed_enter: "armed (enter who p)"
  by (cases who) (simp_all add: armed_obs2 obs2_go obs2_logOn obs2_logOff webAccessRequest_def)


text \<open>
  C4, as the code has it. In every state a request can reach in which the automatic
  log-off is armed and the request itself is in flight: whatever the outcome of the
  request, the log-off call is made next, and whatever the outcome \<open>off\<close> of the log-off,
  the original outcome is delivered. A success goes to \<^verbatim>\<open>onLoad\<close> with
  \<open>loggedOn\<close> and \<open>loggedOff\<close> true; a failure goes to \<^verbatim>\<open>onError\<close> as the
  object with its status code and error text, which carries no \<open>loggedOff\<close>.
\<close>

theorem autoLogOff_delivers_original:
  assumes "s = run p (enter who p) before" and "m_autoLogOff s"
    and "inFlight s = Some (OnLoad_m_onLoad, OnError_m_onError)" and "parameters.onLoad p" and "parameters.onError p"
  shows "effects (run p s [Loaded d r, off]) =
      effects s @
      [Ajax LogOff (logOffUrl p) (Some POST) NoData OnLoad_m_logOffDone OnError_m_logOffDone False,
       Deliver_onLoad
         \<lparr>data = Some (case responseProcessor p of None \<Rightarrow> d | Some f \<Rightarrow> f d r),
          response = Some r, statusCode = status r, errorText = None, loggedOn = Some True,
          loggedOff = Some True\<rparr>] \<and>
    effects (run p s [Failed c t, off]) =
      effects s @
      [Ajax LogOff (logOffUrl p) (Some POST) NoData OnLoad_m_logOffDone OnError_m_logOffDone False,
       Deliver_onError
         (Some \<lparr>data = None, response = None, statusCode = c, errorText = Some t,
            loggedOn = None, loggedOff = None\<rparr>)]"
proof -
  have "armed s" unfolding assms(1) by (rule armed_run [OF armed_enter])
  with assms(2,3) have a: "m_loginAttempted s" "m_loggedOn s" "\<not> m_resultIsSuccess s"
    by (auto simp: armed_def)
  show ?thesis
    using assms(2-5) a
    by (cases off)
       (simp_all add: complete_def m_onLoad_def m_onError_def logOff_def ajax_call_def
          m_logOffDone_def m_returnLoad_def m_returnError_def Let_def logOffUrl_def)
qed


theorem autoLogOff_delivers_original_witness:
  "m_autoLogOff (run (exampleOpen True True) (enter Go (exampleOpen True True))
     [Failed 403 ''Forbidden (403)'', Loaded accepted ok]) \<and>
   inFlight (run (exampleOpen True True) (enter Go (exampleOpen True True))
     [Failed 403 ''Forbidden (403)'', Loaded accepted ok]) =
     Some (OnLoad_m_onLoad, OnError_m_onError) \<and>
   effects (run (exampleOpen True True)
       (run (exampleOpen True True) (enter Go (exampleOpen True True))
          [Failed 403 ''Forbidden (403)'', Loaded accepted ok])
       [Loaded accepted ok, Failed 0 ''Connection Failed'']) =
     effects (run (exampleOpen True True) (enter Go (exampleOpen True True))
       [Failed 403 ''Forbidden (403)'', Loaded accepted ok]) @
     [Ajax LogOff ''http://server/ServiceDesk.WebAccess/wd/Logon/Logoff.rails'' (Some POST)
        NoData OnLoad_m_logOffDone OnError_m_logOffDone False,
      Deliver_onLoad
        \<lparr>data = Some accepted, response = Some ok, statusCode = 200, errorText = None,
         loggedOn = Some True, loggedOff = Some True\<rparr>]"
proof -
  let ?p = "exampleOpen True True :: (responseData, object) parameters"
  let ?s = "run ?p (enter Go ?p) [Failed 403 ''Forbidden (403)'', Loaded accepted ok]"
  have a: "m_autoLogOff ?s" and f: "inFlight ?s = Some (OnLoad_m_onLoad, OnError_m_onError)"
    and l: "parameters.onLoad ?p" and e: "parameters.onError ?p"
    by (simp_all add: example_defs)
  have u: "logOffUrl ?p = ''http://server/ServiceDesk.WebAccess/wd/Logon/Logoff.rails''"
    and q: "responseProcessor ?p = None" and st: "status ok = 200"
    by (simp_all add: example_defs)
  from autoLogOff_delivers_original [OF refl a f l e, of accepted ok
      "Failed 0 ''Connection Failed''" 0 "[]"] a f
  show ?thesis by (simp add: u q st)
qed

text \<open>
  C4 as the specification states it does not hold of the code: after an on-demand log-on
  with automatic log-off, a failure of the replayed request reaches \<^verbatim>\<open>onError\<close>
  with no \<open>loggedOff\<close>.
\<close>

theorem autoLogOff_failure_without_loggedOff:
  "effects (run (exampleOpen True True) (enter Go (exampleOpen True True))
     [Failed 403 ''Forbidden (403)'', Loaded accepted ok,
      Failed 500 ''Internal Server Error (500)'', Loaded accepted ok]) ! 4 =
   Deliver_onError
     (Some \<lparr>data = None, response = None, statusCode = 500,
        errorText = Some ''Internal Server Error (500)'', loggedOn = None, loggedOff = None\<rparr>)"
  by (simp add: example_defs)

section \<open>The orchestrator: the text of an unauthorized failure\<close>





section \<open>The attribute traversal\<close>

lemma scan_parent:
  "snd (snd (scan is (arr, names, q))) =
     (if is = [] then q else map_of (attributes (last is)) ''Class.SuperClassType.Guid'')"
  by (induction "is" arbitrary: arr names q) (auto simp: Let_def)

lemma scan_reportedParent:
  assumes "data res = Some d"
    and "scan (objects d) (arr0, names0, Some '''') = (arr, names, q)"
  shows "q = reportedParent res"
proof -
  have "q = snd (snd (scan (objects d) (arr0, names0, Some '''')))"
    by (simp add: assms(2))
  then show ?thesis
    by (simp add: scan_parent reportedParent_def rows_def assms(1) split: list.splits)
qed

lemma answer_continue:
  assumes "waiting st" "data res \<noteq> None" "reportedParent res \<noteq> Some ''''"
  shows "waiting (answer p (Succeeded res) st) \<and>
     trace (answer p (Succeeded res) st) = trace st @ [Query (reportedParent res)]"
proof -
  from assms(2) obtain d where d: "data res = Some d" by auto
  obtain arr names q where s: "scan (objects d) (attributesArray st, attributeNames st, Some '''') =
      (arr, names, q)"
    by (cases "scan (objects d) (attributesArray st, attributeNames st, Some '''')") auto
  note q = scan_reportedParent [OF d s]
  from assms(1,3) show ?thesis
    by (simp add: answer_def getAttributesOnLoad_def d s q getAttributes_def Let_def)
qed

lemma answer_finish:
  assumes "waiting st" "data res \<noteq> None" "reportedParent res = Some ''''"
    "getAttributesParameters.onLoad p"
  shows "\<not> waiting (answer p (Succeeded res) st) \<and>
     (\<exists>x. trace (answer p (Succeeded res) st) = trace st @ [Call_onLoad x])"
proof -
  from assms(2) obtain d where d: "data res = Some d" by auto
  obtain arr names q where s: "scan (objects d) (attributesArray st, attributeNames st, Some '''') =
      (arr, names, q)"
    by (cases "scan (objects d) (attributesArray st, attributeNames st, Some '''')") auto
  note q = scan_reportedParent [OF d s]
  from assms(1,3,4) show ?thesis
    by (simp add: answer_def getAttributesOnLoad_def d s q Let_def)
qed


lemma traverse_chain:
  assumes "rs \<noteq> []" "\<forall>r\<in>set rs. data r \<noteq> None"
    "\<forall>r\<in>set (butlast rs). reportedParent r \<noteq> Some ''''"
    "reportedParent (last rs) = Some ''''" "getAttributesParameters.onLoad p" "waiting st"
  shows "\<not> waiting (traverse p st (map Succeeded rs)) \<and>
     (\<exists>x. trace (traverse p st (map Succeeded rs)) =
        trace st @ map (\<lambda>r. Query (reportedParent r)) (butlast rs) @ [Call_onLoad x])"
  using assms
proof (induction rs arbitrary: st)
  case Nil
  then show ?case by simp
next
  case (Cons r rs)
  show ?case
  proof (cases "rs = []")
    case True
    with Cons.prems answer_finish [of st r p] show ?thesis by simp
  next
    case False
    with Cons.prems have c: "waiting (answer p (Succeeded r) st)"
      "trace (answer p (Succeeded r) st) = trace st @ [Query (reportedParent r)]"
      using answer_continue [of st r p] by simp_all
    from False Cons.prems have
      "\<not> waiting (traverse p (answer p (Succeeded r) st) (map Succeeded rs)) \<and>
       (\<exists>x. trace (traverse p (answer p (Succeeded r) st) (map Succeeded rs)) =
          trace (answer p (Succeeded r) st) @
          map (\<lambda>r. Query (reportedParent r)) (butlast rs) @ [Call_onLoad x])"
      by (intro Cons.IH) (simp_all add: c)
    with False c show ?thesis by simp
  qed
qed

lemma filter_queries:
  "filter isQuery (map (\<lambda>r. Query (f r)) xs) = map (\<lambda>r. Query (f r)) xs"
  "filter isCall (map (\<lambda>r. Query (f r)) xs) = []"
  by (induction xs) simp_all

text \<open>
  C2. When the queries of the traversal are answered by \<open>N\<close> successful results of
  which all but the last report a parent class guid other than the empty string and the
  last reports the empty string, the traversal issues exactly \<open>N\<close> queries, calls the
  caller's \<^verbatim>\<open>onLoad\<close> exactly once and calls nothing else, and is left with no query
  in flight.
\<close>

theorem traversal_terminates:
  assumes "rs \<noteq> []" and "\<forall>r\<in>set rs. data r \<noteq> None"
    and "\<forall>r\<in>set (butlast rs). reportedParent r \<noteq> Some ''''"
    and "reportedParent (last rs) = Some ''''" and "getAttributesParameters.onLoad p"
  shows "length (filter isQuery (trace (getAttributesForObject p (map Succeeded rs)))) =
      length rs \<and>
    (\<exists>x. filter isCall (trace (getAttributesForObject p (map Succeeded rs))) = [Call_onLoad x]) \<and>
    \<not> waiting (getAttributesForObject p (map Succeeded rs))"
proof -
  let ?st = "getAttributes (Some (objectGuid p))
      \<lparr>attributesArray = [], attributeNames = [], waiting = False, trace = []\<rparr>
    :: 'a queryResponse_scheme traversal"
  have w: "waiting ?st" and t: "trace ?st = [Query (Some (objectGuid p))]"
    by (simp_all add: getAttributes_def)
  from traverse_chain [OF assms w] obtain x where
    x: "trace (traverse p ?st (map Succeeded rs)) =
        trace ?st @ map (\<lambda>r. Query (reportedParent r)) (butlast rs) @ [Call_onLoad x]"
    and n: "\<not> waiting (traverse p ?st (map Succeeded rs))"
    by blast
  from assms(1) have "length (butlast rs) + 1 = length rs" by (cases rs) simp_all
  with x n show ?thesis
    by (simp add: getAttributesForObject_def t filter_queries)
qed

lemmas traversal_defs = getAttributesForObject_def getAttributes_def answer_def
  getAttributesOnLoad_def attributeOf_def exampleRow_def exampleBody_def exampleResult_def
  derivedClass_def baseClass_def exampleTraversal_def rows_def reportedParent_def Let_def
  toLowerCase_def lowerChar_def ok_def

text \<open>
  A query started by \<^verbatim>\<open>runQuery\<close> whose exchange loads a body hands the processed
  body to its \<^verbatim>\<open>onLoad\<close>: the results the traversal reads are of this form.
\<close>

lemma runQuery_delivers:
  "effects (run (runQuery info q True e) (enter Go (runQuery info q True e)) [Loaded d r]) =
     [Ajax Go (webAccessUrl info @ ''/query/list.rails'') (Some GET) (RequestData (Some q))
        OnLoad_m_onLoad OnError_m_onError True,
      Deliver_onLoad
        \<lparr>data = Some (queryResponseProcessor d r), response = Some r, statusCode = status r,
         errorText = None, loggedOn = Some False, loggedOff = Some False\<rparr>]"
  by (simp add: runQuery_def webAccessRequest_def complete_def go_def ajax_call_def
      m_onLoad_def m_returnLoad_def Let_def ToString_def)


theorem traversal_terminates_witness:
  "length (filter isQuery (trace (getAttributesForObject exampleTraversal
      (map Succeeded [exampleResult derivedClass, exampleResult baseClass])))) = 2 \<and>
   reportedParent (exampleResult derivedClass) = Some ''g0'' \<and>
   reportedParent (exampleResult baseClass) = Some [] \<and>
   \<not> waiting (getAttributesForObject exampleTraversal
      (map Succeeded [exampleResult derivedClass, exampleResult baseClass]))"
proof -
  let ?rs = "[exampleResult derivedClass, exampleResult baseClass]"
  have h1: "?rs \<noteq> []" by simp
  have h2: "\<forall>r\<in>set ?rs. data r \<noteq> None" by (simp add: exampleResult_def)
  have p1: "reportedParent (exampleResult derivedClass) = Some ''g0''"
    and p2: "reportedParent (exampleResult baseClass) = Some []"
    by (simp_all add: traversal_defs)
  have h3: "\<forall>r\<in>set (butlast ?rs). reportedParent r \<noteq> Some []" by (simp add: p1)
  have h4: "reportedParent (last ?rs) = Some []" by (simp add: p2)
  have h5: "getAttributesParameters.onLoad exampleTraversal" by (simp add: exampleTraversal_def)
  from traversal_terminates [OF h1 h2 h3 h4 h5] p1 p2 show ?thesis by simp
qed


lemma name_attributeOf [simp]: "attribute.name (attributeOf i) = itemName i"
  by (simp add: attributeOf_def itemName_def)






section \<open>Saving records: the caller's object is kept\<close>

lemma parse_extends:
  "prefix h (snd (parse j h)) \<and> fresh (length h) (fst (parse j h))"
  "prefix h (snd (parseElements js h))"
  "prefix h (snd (parseMembers ms ps h))"
proof (induction j h and js h and ms ps h rule: parse_parseElements_parseMembers.induct)
  case (5 js h)
  then show ?case
    by (auto simp: fresh_def split: prod.splits dest: prefix_length_le intro: prefix_order.trans)
next
  case (6 ms h)
  then show ?case
    by (auto simp: fresh_def split: prod.splits dest: prefix_length_le intro: prefix_order.trans)
next
  case (8 j js h)
  then show ?case
    by (auto split: prod.splits intro: prefix_order.trans)
next
  case (10 k j ms ps h)
  then show ?case
    by (auto split: prod.splits intro: prefix_order.trans)
qed (simp_all add: fresh_def)

lemma prefix_take: "prefix h h' \<Longrightarrow> n \<le> length h \<Longrightarrow> take n h' = take n h"
  by (auto simp: prefix_def)

lemma framed_andThen:
  assumes "framed n Q m" and "\<And>x. Q x \<Longrightarrow> framed n R (f x)"
  shows "framed n R (andThen m f)"
  unfolding framed_def
proof (intro allI impI)
  fix h :: store
  assume n: "n \<le> length h"
  obtain r h1 where m: "m h = (r, h1)" by (cases "m h")
  from assms(1) n m have t: "take n h1 = take n h"
    and q: "case r of Inl e \<Rightarrow> True | Inr x \<Rightarrow> Q x"
    by (auto simp: framed_def)
  from t n have n1: "n \<le> length h1"
    by (metis length_take min.absorb2 min.cobounded1 min_def)
  show "take n (snd (andThen m f h)) = take n h \<and>
      (case fst (andThen m f h) of Inl e \<Rightarrow> True | Inr x \<Rightarrow> R x)"
  proof (cases r)
    case (Inl e)
    with m t show ?thesis by (simp add: andThen_def)
  next
    case (Inr x)
    with q have "framed n R (f x)" by (simp add: assms(2))
    with n1 have "take n (snd (f x h1)) = take n h1 \<and>
        (case fst (f x h1) of Inl e \<Rightarrow> True | Inr y \<Rightarrow> R y)"
      by (simp add: framed_def)
    with Inr m t show ?thesis by (simp add: andThen_def)
  qed
qed

lemma framed_return: "Q x \<Longrightarrow> framed n Q (\<lambda>h. (Inr x, h))"
  by (simp add: framed_def)

lemma framed_newObject: "framed n (fresh n) newObject"
  by (simp add: framed_def newObject_def fresh_def)

lemma framed_parseStringify: "framed n (fresh n) (parseStringify v)"
  unfolding framed_def
proof (intro allI impI)
  fix h :: store
  assume n: "n \<le> length h"
  show "take n (snd (parseStringify v h)) = take n h \<and>
      (case fst (parseStringify v h) of Inl e \<Rightarrow> True | Inr x \<Rightarrow> fresh n x)"
  proof (cases "stringify h [] v")
    case (Inl e)
    then show ?thesis by (simp add: parseStringify_def)
  next
    case (Inr jo)
    show ?thesis
    proof (cases jo)
      case None
      with Inr show ?thesis by (simp add: parseStringify_def)
    next
      case (Some j)
      from parse_extends(1) [of h j] n
      have "take n (snd (parse j h)) = take n h" and "fresh n (fst (parse j h))"
        by (auto simp: prefix_take fresh_def split: jsval.splits)
      with Inr Some show ?thesis
        by (auto simp add: parseStringify_def split: prod.splits)
    qed
  qed
qed

lemma framed_setProperty: "fresh n target \<Longrightarrow> framed n (\<lambda>u. True) (setProperty target k x)"
  by (auto simp: framed_def setProperty_def fresh_def split: jsval.splits cell.splits)

lemma framed_setIfGiven: "fresh n target \<Longrightarrow> framed n (\<lambda>u. True) (setIfGiven target k s)"
  by (cases s) (simp_all add: setIfGiven_def framed_setProperty framed_return)

lemma framed_prepareSaveData:
  "framed n (fresh n) (prepareSaveData className isNew attributeValues)"
  unfolding prepareSaveData_def
  by (intro framed_andThen [OF framed_newObject] framed_andThen [where Q = "fresh n"]
      framed_andThen [OF framed_setProperty])
    (simp_all add: framed_parseStringify framed_return)

lemma framed_save:
  "fresh n saveData \<Longrightarrow> framed n (\<lambda>r. fresh n (sent r)) (save info saveData l e)"
  by (simp add: framed_def save_def sent_def Let_def)

lemma framed_kept:
  assumes "framed (length h) Q m"
  shows "kept h m \<and> (case fst (m h) of Inl e \<Rightarrow> True | Inr x \<Rightarrow> Q x)"
proof -
  from assms have "take (length h) (snd (m h)) = h"
    and q: "case fst (m h) of Inl e \<Rightarrow> True | Inr x \<Rightarrow> Q x"
    by (simp_all add: framed_def)
  then have "prefix h (snd (m h))" by (metis take_is_prefix)
  with q show ?thesis by (simp add: kept_def)
qed

lemma framed_createRecord:
  "framed n (\<lambda>r. fresh n (sent r)) (createRecord info c av l e)"
  unfolding createRecord_def
  by (intro framed_andThen [OF framed_prepareSaveData] framed_save)

lemma framed_createProcessRecord:
  "framed n (\<lambda>r. fresh n (sent r)) (createProcessRecord info c lc tn av l e)"
  unfolding createProcessRecord_def
  by (intro framed_andThen [OF framed_prepareSaveData] framed_andThen [OF framed_setIfGiven]
      framed_save)

lemma framed_updateRecord:
  "framed n (\<lambda>r. fresh n (sent r)) (updateRecord info c k av l e)"
  unfolding updateRecord_def
  by (intro framed_andThen [OF framed_prepareSaveData] framed_andThen [OF framed_setProperty]
      framed_save)

lemma framed_collectionAction:
  "framed n (\<lambda>r. fresh n (sent r)) (collectionAction info pc pk an cc av l e)"
  unfolding collectionAction_def
  by (intro framed_andThen [OF framed_prepareSaveData] framed_andThen [OF framed_setProperty]
      framed_save)

lemma framed_updateAction:
  "framed n (\<lambda>r. fresh n (sent r)) (updateAction info c k an av l e)"
  unfolding updateAction_def
  by (intro framed_andThen [OF framed_prepareSaveData] framed_andThen [OF framed_setProperty]
      framed_save)

text \<open>
  C10. Whatever the store and the arguments, each of \<^verbatim>\<open>createRecord\<close>,
  \<^verbatim>\<open>createProcessRecord\<close>, \<^verbatim>\<open>updateRecord\<close>, \<^verbatim>\<open>collectionAction\<close> and
  \<^verbatim>\<open>updateAction\<close> leaves every object that existed before the call as it was, the
  caller's \<^verbatim>\<open>attributeValues\<close> and the objects it refers to among them; the object
  that is sent, to which \<^verbatim>\<open>class_name\<close>, \<^verbatim>\<open>is_new\<close> and the other keys were
  added, did not exist before the call.
\<close>

theorem attributeValues_kept:
  "kept h (createRecord info c av l e :: 'd saving step) \<and>
   kept h (createProcessRecord info c lc tn av l e :: 'd saving step) \<and>
   kept h (updateRecord info c k av l e :: 'd saving step) \<and>
   kept h (collectionAction info pc pk an c av l e :: 'd saving step) \<and>
   kept h (updateAction info c k an av l e :: 'd saving step) \<and>
   (case fst ((createRecord info c av l e :: 'd saving step) h) of
      Inl x \<Rightarrow> True | Inr r \<Rightarrow> fresh (length h) (sent r)) \<and>
   (case fst ((createProcessRecord info c lc tn av l e :: 'd saving step) h) of
      Inl x \<Rightarrow> True | Inr r \<Rightarrow> fresh (length h) (sent r)) \<and>
   (case fst ((updateRecord info c k av l e :: 'd saving step) h) of
      Inl x \<Rightarrow> True | Inr r \<Rightarrow> fresh (length h) (sent r)) \<and>
   (case fst ((collectionAction info pc pk an c av l e :: 'd saving step) h) of
      Inl x \<Rightarrow> True | Inr r \<Rightarrow> fresh (length h) (sent r)) \<and>
   (case fst ((updateAction info c k an av l e :: 'd saving step) h) of
      Inl x \<Rightarrow> True | Inr r \<Rightarrow> fresh (length h) (sent r))"
  using framed_kept [OF framed_createRecord [of "length h" info c av l e]]
    framed_kept [OF framed_createProcessRecord [of "length h" info c lc tn av l e]]
    framed_kept [OF framed_updateRecord [of "length h" info c k av l e]]
    framed_kept [OF framed_collectionAction [of "length h" info pc pk an c av l e]]
    framed_kept [OF framed_updateAction [of "length h" info c k an av l e]]
  by blast

theorem attributeValues_kept_witness:
  "snd ((createRecord (exampleInfo False False) ''IncidentManagement.Incident'' (VRef 0)
      True True :: responseData saving step) exampleStore) =
     exampleStore @
     [ObjectCell [], ObjectCell [(''Name'', VStr ''sa'')],
      ObjectCell [(''Title'', VStr ''Printer''), (''RaiseUser'', VRef 3),
        (''class_name'', VStr ''IncidentManagement.Incident''), (''is_new'', VBool True)]] \<and>
   sent (projr (fst ((createRecord (exampleInfo False False) ''IncidentManagement.Incident''
      (VRef 0) True True :: responseData saving step) exampleStore))) = VRef 4 \<and>
   kept exampleStore (createRecord (exampleInfo False False) ''IncidentManagement.Incident''
      (VRef 0) True True :: responseData saving step)"
proof -
  have "snd ((createRecord (exampleInfo False False) ''IncidentManagement.Incident'' (VRef 0)
      True True :: responseData saving step) exampleStore) =
     exampleStore @
     [ObjectCell [], ObjectCell [(''Name'', VStr ''sa'')],
      ObjectCell [(''Title'', VStr ''Printer''), (''RaiseUser'', VRef 3),
        (''class_name'', VStr ''IncidentManagement.Incident''), (''is_new'', VBool True)]]"
    by code_simp
  moreover have "sent (projr (fst ((createRecord (exampleInfo False False)
      ''IncidentManagement.Incident'' (VRef 0) True True :: responseData saving step)
      exampleStore))) = VRef 4"
    by code_simp
  ultimately show ?thesis
    using attributeValues_kept [of exampleStore "exampleInfo False False"
        "''IncidentManagement.Incident''" "VRef 0" True True]
    by blast
qed

end
